theory Spec2Isabelle
  imports Main
begin

section \<open>Text helpers\<close>

text \<open>
  Python strings are modelled as \<^typ>\<open>string\<close>; the text handled here is taken to be
  ASCII, so \<open>str.lower\<close> acts on the letters A to Z, \<open>\d\<close> is one of the ten
  decimal digits and white space is what \<open>str.isspace\<close> accepts below code 128.
\<close>

text \<open>A raised exception is represented by its message, \<open>str(e)\<close>.\<close>

type_synonym exn = string

definition is_digit :: "char \<Rightarrow> bool" where
  "is_digit c = (let n = (of_char c :: nat) in 48 \<le> n \<and> n \<le> 57)"

definition digit_val :: "char \<Rightarrow> nat" where
  "digit_val c = of_char c - 48"

text \<open>The number a string of decimal digits denotes.\<close>

definition int_of_digits :: "string \<Rightarrow> nat" where
  "int_of_digits ds = foldl (\<lambda>a c. 10 * a + digit_val c) 0 ds"

text \<open>
  \<open>int(s)\<close> on a string of decimal digits. CPython (3.11 and later, with the default
  setting) refuses a string of more than 4300 digits with a \<open>ValueError\<close>.
\<close>

definition int_max_str_digits :: nat where
  "int_max_str_digits = 4300"

definition int_limit_error :: exn where
  "int_limit_error = ''Exceeds the limit (4300 digits) for integer string conversion''"

definition py_int :: "string \<Rightarrow> exn + int" where
  "py_int ds =
     (if length ds > int_max_str_digits then Inl int_limit_error
      else Inr (int (int_of_digits ds)))"

definition lower_char :: "char \<Rightarrow> char" where
  "lower_char c = (let n = (of_char c :: nat) in
     if 65 \<le> n \<and> n \<le> 90 then char_of (n + 32) else c)"

definition lower :: "string \<Rightarrow> string" where
  "lower s = map lower_char s"

definition is_space :: "char \<Rightarrow> bool" where
  "is_space c = (let n = (of_char c :: nat) in (9 \<le> n \<and> n \<le> 13) \<or> (28 \<le> n \<and> n \<le> 32))"

text \<open>\<open>s.strip()\<close>.\<close>

definition strip :: "string \<Rightarrow> string" where
  "strip s = rev (dropWhile is_space (rev (dropWhile is_space s)))"

text \<open>\<open>s.split()\<close>: the maximal runs of characters that are not white space.\<close>

fun split_ws :: "string \<Rightarrow> string \<Rightarrow> string list" where
  "split_ws w [] = (if w = [] then [] else [w])"
| "split_ws w (c # cs) =
     (if is_space c then (if w = [] then split_ws [] cs else w # split_ws [] cs)
      else split_ws (w @ [c]) cs)"

definition split :: "string \<Rightarrow> string list" where
  "split s = split_ws [] s"

text \<open>\<open>p in s\<close> on strings: \<open>p\<close> occurs in \<open>s\<close> as a contiguous run.\<close>

fun starts_with :: "string \<Rightarrow> string \<Rightarrow> bool" where
  "starts_with [] s = True"
| "starts_with (p # ps) [] = False"
| "starts_with (p # ps) (c # cs) = (p = c \<and> starts_with ps cs)"

fun in_str :: "string \<Rightarrow> string \<Rightarrow> bool" where
  "in_str p [] = (p = [])"
| "in_str p (c # cs) = (starts_with p (c # cs) \<or> in_str p cs)"

section \<open>Duration parser\<close>

text \<open>
  \<open>parse_duration\<close> matches \<open>PT(?:(\d+)H)?(?:(\d+)M)?(?:(\d+)S)?\<close> at the start of
  the string. One optional group \<open>(?:(\d+)u)?\<close> is \<open>match_unit u\<close>: the greedy digit
  run must be non-empty and followed by the unit letter; giving digits back cannot help,
  since the character after a shorter run is a digit. Otherwise the group matches the empty
  string and captures nothing. Every later part of the pattern is optional, so a group that
  matched is never undone.
\<close>

definition match_unit :: "char \<Rightarrow> string \<Rightarrow> string option \<times> string" where
  "match_unit u s =
     (let ds = takeWhile is_digit s in
      case dropWhile is_digit s of
        [] \<Rightarrow> (None, s)
      | c # r \<Rightarrow> if ds \<noteq> [] \<and> c = u then (Some ds, r) else (None, s))"

definition re_match_duration ::
  "string \<Rightarrow> (string option \<times> string option \<times> string option) option" where
  "re_match_duration s =
     (case s of
        c1 # c2 # r \<Rightarrow>
          if c1 = CHR ''P'' \<and> c2 = CHR ''T'' then
            (let (h, r1) = match_unit CHR ''H'' r;
                 (m, r2) = match_unit CHR ''M'' r1;
                 (sec, r3) = match_unit CHR ''S'' r2
             in Some (h, m, sec))
          else None
      | _ \<Rightarrow> None)"

text \<open>\<open>int(match.group(k) or 0)\<close>.\<close>

definition group_int :: "string option \<Rightarrow> exn + int" where
  "group_int g = (case g of None \<Rightarrow> Inr 0 | Some ds \<Rightarrow> if ds = [] then Inr 0 else py_int ds)"

text \<open>
  The three conversions are made in the order hours, minutes, seconds; the first one that
  raises ends the function with its exception.
\<close>

definition parse_duration :: "string \<Rightarrow> exn + int" where
  "parse_duration duration_str =
     (case re_match_duration duration_str of
        None \<Rightarrow> Inr 0
      | Some (h, m, sec) \<Rightarrow>
          (case group_int h of
             Inl err \<Rightarrow> Inl err
           | Inr hours \<Rightarrow>
               (case group_int m of
                  Inl err \<Rightarrow> Inl err
                | Inr minutes \<Rightarrow>
                    (case group_int sec of
                       Inl err \<Rightarrow> Inl err
                     | Inr seconds \<Rightarrow> Inr (hours * 3600 + minutes * 60 + seconds)))))"

section \<open>Classifier\<close>

type_synonym pattern_table = "(string \<times> string list) list"

text \<open>The table of the default configuration, in its declared order.\<close>

definition default_tractate_patterns :: pattern_table where
  "default_tractate_patterns =
   [(''Berachos'', [''berachos'', ''berakhot'']),
    (''Shabbos'', [''shabbos'', ''shabbat'']),
    (''Eruvin'', [''eruvin'']),
    (''Pesachim'', [''pesachim'']),
    (''Shekalim'', [''shekalim'']),
    (''Yoma'', [''yoma'']),
    (''Sukkah'', [''sukkah'']),
    (''Beitzah'', [''beitzah'', ''beitza'']),
    (''Rosh_Hashanah'', [''rosh hashanah'', ''rosh_hashanah'']),
    (''Taanis'', [''taanis'', ''taanit'']),
    (''Megillah'', [''megillah'']),
    (''Moed_Katan'', [''moed katan'', ''moed_katan'']),
    (''Chagigah'', [''chagigah'']),
    (''Yevamos'', [''yevamos'', ''yevamot'']),
    (''Kesubos'', [''kesubos'', ''ketubbot'']),
    (''Nedarim'', [''nedarim'']),
    (''Nazir'', [''nazir'']),
    (''Sotah'', [''sotah'']),
    (''Gittin'', [''gittin'']),
    (''Kiddushin'', [''kiddushin'']),
    (''Bava_Kamma'', [''bava kamma'', ''bava_kamma'']),
    (''Bava_Metzia'', [''bava metzia'', ''bava_metzia'']),
    (''Bava_Basra'', [''bava basra'', ''bava_basra'']),
    (''Sanhedrin'', [''sanhedrin'']),
    (''Makkos'', [''makkos'', ''makkot'']),
    (''Shevuos'', [''shevuos'', ''shevuot'']),
    (''Avodah_Zarah'', [''avodah zarah'', ''avodah_zarah'']),
    (''Horayos'', [''horayos'', ''horayot'']),
    (''Zevachim'', [''zevachim'']),
    (''Menachos'', [''menachos'', ''menachot'']),
    (''Chullin'', [''chullin'']),
    (''Bechorot'', [''bechorot'', ''bechoros'']),
    (''Arachin'', [''arachin'']),
    (''Temurah'', [''temurah'']),
    (''Kerisos'', [''kerisos'', ''keritot'']),
    (''Meilah'', [''meilah'']),
    (''Kinnim'', [''kinnim'']),
    (''Tamid'', [''tamid'']),
    (''Midos'', [''midos'', ''midot'']),
    (''Niddah'', [''niddah''])]"

definition combined_text :: "string \<Rightarrow> string \<Rightarrow> string" where
  "combined_text title description = lower title @ '' '' @ lower description"

text \<open>The series type chosen once a tractate pattern has matched.\<close>

definition series_type_of :: "string \<Rightarrow> string" where
  "series_type_of txt =
     (if in_str ''daf yomi'' txt then ''Daf_Yomi''
      else if in_str ''shiur'' txt then ''Shiurim''
      else if in_str ''lecture'' txt then ''Lectures''
      else ''General'')"

text \<open>
  The two nested loops over the table return at the first tractate, in table order, one of
  whose patterns occurs in the text.
\<close>

fun scan_tractates :: "pattern_table \<Rightarrow> string \<Rightarrow> string option" where
  "scan_tractates [] txt = None"
| "scan_tractates ((tractate, patterns) # rest) txt =
     (if list_ex (\<lambda>pattern. in_str pattern txt) patterns then Some tractate
      else scan_tractates rest txt)"

definition override_words :: "string list" where
  "override_words = [''special'', ''event'', ''announcement'']"

definition classify_video :: "pattern_table \<Rightarrow> string \<Rightarrow> string \<Rightarrow> string \<times> string" where
  "classify_video tractate_patterns title description =
     (let txt = combined_text title description in
      case scan_tractates tractate_patterns txt of
        Some tractate \<Rightarrow> (tractate, series_type_of txt)
      | None \<Rightarrow>
          if in_str ''daf yomi'' txt then (''Unclassified'', ''Daf_Yomi'')
          else if list_ex (\<lambda>word. in_str word txt) override_words then (''Special_Series'', ''Events'')
          else (''Unclassified'', ''General''))"

text \<open>
  \<open>ContentOrganizer.classify_content\<close>, the classifier of the organizing utility, with its
  two tables. Its table of tractates is the one above with one more pattern for the first
  tractate. It looks for a tractate and for a series type, and then lets the three words
  decide whatever the tables gave.
\<close>

definition organizer_tractate_patterns :: pattern_table where
  "organizer_tractate_patterns =
     (''Berachos'', [''berachos'', ''berakhot'', ''brachot'']) # tl default_tractate_patterns"

definition series_types :: pattern_table where
  "series_types =
     [(''Daf_Yomi'', [''daf yomi'']),
      (''Shiurim'', [''shiur'']),
      (''Lectures'', [''lecture'']),
      (''Special_Series'', [''special'', ''event'', ''announcement'']),
      (''General'', [])]"

fun scan_series :: "pattern_table \<Rightarrow> string \<Rightarrow> string option" where
  "scan_series [] txt = None"
| "scan_series ((series_name, patterns) # rest) txt =
     (if patterns \<noteq> [] \<and> list_ex (\<lambda>pattern. in_str pattern txt) patterns then Some series_name
      else scan_series rest txt)"

definition classify_content ::
  "pattern_table \<Rightarrow> pattern_table \<Rightarrow> string \<Rightarrow> string \<Rightarrow> string \<times> string" where
  "classify_content tractates series title description =
     (let txt = combined_text title description;
          tractate = (case scan_tractates tractates txt of Some t \<Rightarrow> t | None \<Rightarrow> ''Unclassified'');
          series_type = (case scan_series series txt of Some t \<Rightarrow> t | None \<Rightarrow> ''General'')
      in if list_ex (\<lambda>word. in_str word txt) override_words
         then (''Special_Series'', ''Events'')
         else (tractate, series_type))"

section \<open>Data model of the batch processor\<close>

text \<open>
  One item of work: the dictionary built by \<open>get_channel_videos\<close>, with the keys that
  \<open>get_video_metadata\<close> adds later and that the batch processor reads.
\<close>

record video =
  video_id :: string
  title :: string
  description :: string
  published_at :: string
  url :: string
  duration :: "string option"
  duration_seconds :: "int option"
  view_count :: "int option"

text \<open>The first element of \<open>response['items']\<close> of the video metadata service.\<close>

record api_item =
  item_title :: string
  item_description :: string
  item_published_at :: string
  item_duration :: string
  item_view_count :: int

text \<open>
  A transcript handle of the transcript service. Only the text of an entry is modelled;
  its start offset and length are floating-point numbers that no property below reads.
\<close>

record entry =
  entry_text :: string

record transcript =
  language_code :: string
  is_generated :: bool
  fetch :: "exn + entry list"

record transcript_list =
  find_transcript :: "string \<Rightarrow> transcript option"
  available :: "transcript list"

text \<open>
  The \<open>result\<close> dictionary of \<open>extract_transcript\<close>, without its key
  \<open>duration_covered\<close>, a sum of two floating-point numbers.
\<close>

record extraction_metadata =
  success :: bool
  transcript_type :: "string option"
  language :: "string option"
  error :: "string option"
  word_count :: nat

type_synonym extraction = "string option \<times> entry list option \<times> extraction_metadata"

text \<open>The progress dictionary kept in \<open>extraction_progress.json\<close>.\<close>

record progress =
  completed_videos :: "string list"
  failed_videos :: "string list"
  last_batch :: nat
  total_processed :: nat
  start_time :: "string option"

text \<open>An element of \<open>self.failed_videos\<close>.\<close>

record failure =
  failure_video_id :: string
  failure_title :: string
  failure_error :: "string option"
  failure_timestamp :: string

text \<open>A row of the catalog, appended to \<open>batch_results\<close>.\<close>

record result =
  result_video_id :: string
  result_title :: string
  result_url :: string
  result_published_at :: string
  result_duration :: "string option"
  result_view_count :: int
  transcript_file :: "string list"
  result_transcript_type :: "string option"
  result_language :: "string option"
  result_word_count :: nat
  tractate :: string
  series_type :: string
  status :: string
  processed_at :: string

text \<open>
  What the processor does to the outside world, in the order it does it: calls to the two
  remote services, timed waits, writes to the file sink. Log lines are not recorded.
\<close>

datatype event =
    FetchMetadata string
  | ExtractTranscript string
  | Backoff nat
  | SaveTranscript string string
  | RateLimit nat
  | SaveProgress progress
  | BatchPause nat

text \<open>
  A value as \<open>json.load\<close> returns it: a dictionary is the list of its items, each key
  once; numbers are integers.
\<close>

datatype json =
    JNull
  | JBool bool
  | JInt int
  | JString string
  | JArray "json list"
  | JObject "(string \<times> json) list"

text \<open>
  The external collaborators. Each answer may depend on everything that happened before
  the call, so each takes the trace so far.
\<close>

record env =
  youtube_service :: bool
  videos_list :: "event list \<Rightarrow> string \<Rightarrow> exn + api_item list"
  list_transcripts :: "event list \<Rightarrow> string \<Rightarrow> exn + transcript_list"
  write_file :: "event list \<Rightarrow> string list \<Rightarrow> exn option"
  now :: "event list \<Rightarrow> string"
  channel_videos :: "video list"
  json_load :: "string \<Rightarrow> exn + json"

record config =
  output_directory :: string
  batch_size :: nat
  rate_limit_seconds :: nat
  max_retries :: nat
  organize_by_tractate :: bool
  tractate_patterns :: pattern_table

text \<open>The mutable state of the extractor during a run.\<close>

record extractor =
  progress :: progress
  self_failed_videos :: "failure list"
  trace :: "event list"

section \<open>Progress store\<close>

datatype file_state = Missing | Unreadable exn | Contents string

definition fresh_progress :: progress where
  "fresh_progress =
     \<lparr>completed_videos = [], failed_videos = [], last_batch = 0, total_processed = 0,
      start_time = None\<rparr>"

definition path_exists :: "file_state \<Rightarrow> bool" where
  "path_exists f = (f \<noteq> Missing)"

definition open_read :: "file_state \<Rightarrow> exn + string" where
  "open_read f =
     (case f of
        Missing \<Rightarrow> Inl ''No such file or directory''
      | Unreadable e \<Rightarrow> Inl e
      | Contents s \<Rightarrow> Inr s)"

text \<open>A progress record as the dictionary the program builds and writes.\<close>

definition json_of_progress :: "progress \<Rightarrow> json" where
  "json_of_progress p =
     JObject
       [(''completed_videos'', JArray (map JString (completed_videos p))),
        (''failed_videos'', JArray (map JString (failed_videos p))),
        (''last_batch'', JInt (int (last_batch p))),
        (''total_processed'', JInt (int (total_processed p))),
        (''start_time'', (case start_time p of None \<Rightarrow> JNull | Some t \<Rightarrow> JString t))]"

text \<open>
  \<open>load_progress\<close> returns the default dictionary when the file is missing and when
  opening, reading or parsing it raises; otherwise it returns what \<open>json.load\<close>
  returned, whatever that is.
\<close>

definition load_progress :: "env \<Rightarrow> file_state \<Rightarrow> json" where
  "load_progress e f =
     (if \<not> path_exists f then json_of_progress fresh_progress
      else case open_read f of
             Inl err \<Rightarrow> json_of_progress fresh_progress
           | Inr s \<Rightarrow> (case json_load e s of Inl err \<Rightarrow> json_of_progress fresh_progress | Inr doc \<Rightarrow> doc))"

text \<open>
  The progress record of a dictionary that has the five keys with values of the types the
  program writes: two lists of strings, two non-negative integers, a string or null.
\<close>

fun json_strings :: "json list \<Rightarrow> string list option" where
  "json_strings [] = Some []"
| "json_strings (JString x # rest) = map_option ((#) x) (json_strings rest)"
| "json_strings (_ # rest) = None"

definition as_strings :: "json option \<Rightarrow> string list option" where
  "as_strings j = (case j of Some (JArray xs) \<Rightarrow> json_strings xs | _ \<Rightarrow> None)"

definition as_nat :: "json option \<Rightarrow> nat option" where
  "as_nat j = (case j of Some (JInt n) \<Rightarrow> if 0 \<le> n then Some (nat n) else None | _ \<Rightarrow> None)"

definition as_optional_string :: "json option \<Rightarrow> string option option" where
  "as_optional_string j =
     (case j of Some JNull \<Rightarrow> Some None | Some (JString t) \<Rightarrow> Some (Some t) | _ \<Rightarrow> None)"

definition progress_of_json :: "json \<Rightarrow> progress option" where
  "progress_of_json doc =
     (case doc of
        JObject items \<Rightarrow>
          (case as_strings (map_of items ''completed_videos'') of
             None \<Rightarrow> None
           | Some cs \<Rightarrow>
               (case as_strings (map_of items ''failed_videos'') of
                  None \<Rightarrow> None
                | Some fs \<Rightarrow>
                    (case as_nat (map_of items ''last_batch'') of
                       None \<Rightarrow> None
                     | Some b \<Rightarrow>
                         (case as_nat (map_of items ''total_processed'') of
                            None \<Rightarrow> None
                          | Some n \<Rightarrow>
                              (case as_optional_string (map_of items ''start_time'') of
                                 None \<Rightarrow> None
                               | Some t \<Rightarrow>
                                   Some \<lparr>completed_videos = cs, failed_videos = fs, last_batch = b,
                                         total_processed = n, start_time = t\<rparr>)))))
      | _ \<Rightarrow> None)"

section \<open>Remote source adapter\<close>

text \<open>The dictionary returned by \<open>get_video_metadata\<close>, restricted to the keys of \<^typ>\<open>video\<close>.\<close>

record metadata =
  md_title :: string
  md_description :: string
  md_published_at :: string
  md_duration :: string
  md_duration_seconds :: int
  md_view_count :: int

definition get_video_metadata :: "env \<Rightarrow> event list \<Rightarrow> string \<Rightarrow> metadata option" where
  "get_video_metadata e h vid =
     (if \<not> youtube_service e then None
      else case videos_list e h vid of
             Inl err \<Rightarrow> None
           | Inr [] \<Rightarrow> None
           | Inr (item # _) \<Rightarrow>
               (case parse_duration (item_duration item) of
                  Inl err \<Rightarrow> None
                | Inr secs \<Rightarrow>
                    Some \<lparr>md_title = item_title item,
                          md_description = item_description item,
                          md_published_at = item_published_at item,
                          md_duration = item_duration item,
                          md_duration_seconds = secs,
                          md_view_count = item_view_count item\<rparr>))"

text \<open>\<open>video_data.update(detailed_metadata)\<close>.\<close>

definition update_video :: "video \<Rightarrow> metadata \<Rightarrow> video" where
  "update_video v md =
     v\<lparr>title := md_title md,
       description := md_description md,
       published_at := md_published_at md,
       duration := Some (md_duration md),
       duration_seconds := Some (md_duration_seconds md),
       view_count := Some (md_view_count md)\<rparr>"

definition language_priorities :: "string list" where
  "language_priorities = [''en'', ''en-US'', ''en-GB'', ''he'', ''iw'']"

fun find_preferred :: "transcript_list \<Rightarrow> string list \<Rightarrow> (string \<times> transcript) option" where
  "find_preferred tlist [] = None"
| "find_preferred tlist (lang # rest) =
     (case find_transcript tlist lang of
        Some t \<Rightarrow> Some (lang, t)
      | None \<Rightarrow> find_preferred tlist rest)"

definition initial_result :: extraction_metadata where
  "initial_result =
     \<lparr>success = False, transcript_type = None, language = None, error = None, word_count = 0\<rparr>"

text \<open>The loop \<open>full_text += entry['text'] + " "\<close>.\<close>

definition flatten_entries :: "entry list \<Rightarrow> string" where
  "flatten_entries transcript_data = concat (map (\<lambda>en. entry_text en @ '' '') transcript_data)"

definition extract_transcript :: "env \<Rightarrow> event list \<Rightarrow> string \<Rightarrow> extraction" where
  "extract_transcript e h vid =
     (case list_transcripts e h vid of
        Inl err \<Rightarrow> (None, None, initial_result\<lparr>error := Some err\<rparr>)
      | Inr tlist \<Rightarrow>
          (let chosen =
                 (case find_preferred tlist language_priorities of
                    Some (lang, t) \<Rightarrow> Some (lang, t)
                  | None \<Rightarrow>
                      (case available tlist of
                         [] \<Rightarrow> None
                       | t # _ \<Rightarrow> Some (language_code t, t)))
           in case chosen of
                None \<Rightarrow> (None, None, initial_result\<lparr>error := Some ''No transcripts available''\<rparr>)
              | Some (lang, t) \<Rightarrow>
                  (let res = initial_result
                               \<lparr>language := Some lang,
                                transcript_type :=
                                  Some (if \<not> is_generated t then ''manual'' else ''auto-generated'')\<rparr>
                   in case fetch t of
                        Inl err \<Rightarrow> (None, None, res\<lparr>error := Some err\<rparr>)
                      | Inr transcript_data \<Rightarrow>
                          if transcript_data = [] then
                            (None, None, res\<lparr>error := Some ''Empty transcript data''\<rparr>)
                          else
                            (let full_text = strip (flatten_entries transcript_data)
                             in (Some full_text, Some transcript_data,
                                 res\<lparr>success := True, word_count := length (split full_text)\<rparr>)))))"

section \<open>File sink\<close>

definition is_word_char :: "char \<Rightarrow> bool" where
  "is_word_char c =
     (let n = (of_char c :: nat)
      in (48 \<le> n \<and> n \<le> 57) \<or> (65 \<le> n \<and> n \<le> 90) \<or> (97 \<le> n \<and> n \<le> 122) \<or> n = 95)"

text \<open>\<open>re.sub(r'[-\s]+', '_', s)\<close>; the flag says that the previous character was replaced.\<close>

fun collapse_runs :: "bool \<Rightarrow> string \<Rightarrow> string" where
  "collapse_runs in_run [] = []"
| "collapse_runs in_run (c # cs) =
     (if c = CHR ''-'' \<or> is_space c then
        (if in_run then collapse_runs True cs else CHR ''_'' # collapse_runs True cs)
      else c # collapse_runs False cs)"

definition safe_filename :: "video \<Rightarrow> string" where
  "safe_filename v =
     (let safe_title = filter (\<lambda>c. is_word_char c \<or> is_space c \<or> c = CHR ''-'') (title v);
          safe_title = collapse_runs False safe_title
      in safe_title @ ''_'' @ video_id v @ ''.txt'')"

text \<open>
  \<open>save_transcript\<close>: the path is kept as the sequence of segments joined by \<open>/\<close>; creating
  the directory and writing the document are the sink \<open>write_file\<close>, which may raise.
\<close>

definition save_transcript :: "env \<Rightarrow> config \<Rightarrow> event list \<Rightarrow> video \<Rightarrow> exn + string list" where
  "save_transcript e cfg h v =
     (let (tractate, series_type) = classify_video (tractate_patterns cfg) (title v) (description v);
          output_dir = (if organize_by_tractate cfg
                        then [output_directory cfg, tractate, series_type]
                        else [output_directory cfg, ''All_Transcripts'']);
          filepath = output_dir @ [safe_filename v]
      in case write_file e h filepath of
           Some err \<Rightarrow> Inl err
         | None \<Rightarrow> Inr filepath)"

section \<open>Batch processor\<close>

text \<open>
  The retry loop \<open>for attempt in range(max_retries)\<close>, as a recursion over the attempts
  still to make. The second component holds the three variables assigned by the latest call
  of \<open>extract_transcript\<close>; it is \<open>None\<close> while all three are still \<open>None\<close>.
  \<open>extract_transcript\<close> catches every exception itself, so the \<open>except\<close> branch
  of the loop body is never taken and has no counterpart here.
\<close>

fun retry_extract ::
  "env \<Rightarrow> nat \<Rightarrow> string \<Rightarrow> nat list \<Rightarrow> event list \<times> extraction option \<Rightarrow>
   event list \<times> extraction option" where
  "retry_extract e n vid [] acc = acc"
| "retry_extract e n vid (attempt # rest) (tr, extracted) =
     (let r = extract_transcript e tr vid;
          tr1 = tr @ [ExtractTranscript vid]
      in if success (snd (snd r)) then (tr1, Some r)
         else retry_extract e n vid rest
                (if int attempt < int n - 1 then tr1 @ [Backoff (2 ^ attempt)] else tr1, Some r))"

definition enrich :: "env \<Rightarrow> event list \<Rightarrow> video \<Rightarrow> video \<times> event list" where
  "enrich e tr v =
     (if youtube_service e then
        (case get_video_metadata e tr (video_id v) of
           Some md \<Rightarrow> update_video v md
         | None \<Rightarrow> v,
         tr @ [FetchMetadata (video_id v)])
      else (v, tr))"

definition make_result ::
  "config \<Rightarrow> video \<Rightarrow> string list \<Rightarrow> extraction_metadata \<Rightarrow> string \<Rightarrow> result" where
  "make_result cfg v filepath m ts =
     \<lparr>result_video_id = video_id v,
      result_title = title v,
      result_url = url v,
      result_published_at = published_at v,
      result_duration = duration v,
      result_view_count = (case view_count v of None \<Rightarrow> 0 | Some n \<Rightarrow> n),
      transcript_file = filepath,
      result_transcript_type = transcript_type m,
      result_language = language m,
      result_word_count = word_count m,
      tractate = fst (classify_video (tractate_patterns cfg) (title v) (description v)),
      series_type = snd (classify_video (tractate_patterns cfg) (title v) (description v)),
      status = ''success'',
      processed_at = ts\<rparr>"

definition make_failure :: "video \<Rightarrow> string option \<Rightarrow> string \<Rightarrow> failure" where
  "make_failure v err ts =
     \<lparr>failure_video_id = video_id v, failure_title = title v, failure_error = err,
      failure_timestamp = ts\<rparr>"

text \<open>The block \<open># Process result\<close> of the loop body.\<close>

definition record_outcome ::
  "env \<Rightarrow> config \<Rightarrow> video \<Rightarrow> extraction option \<Rightarrow> extractor \<times> result list \<Rightarrow>
   extractor \<times> result list" where
  "record_outcome e cfg v extracted acc =
     (let (st, batch_results) = acc;
          p = progress st;
          saving = (case extracted of
                      Some (Some transcript_text, transcript_data, m) \<Rightarrow>
                        if transcript_text \<noteq> [] \<and> success m then Some (transcript_text, m) else None
                    | _ \<Rightarrow> None)
      in case saving of
           Some (transcript_text, m) \<Rightarrow>
             (let tr1 = trace st @ [SaveTranscript (video_id v) transcript_text]
              in case save_transcript e cfg tr1 v of
                   Inr filepath \<Rightarrow>
                     (st\<lparr>progress := p\<lparr>completed_videos := completed_videos p @ [video_id v],
                                         total_processed := total_processed p + 1\<rparr>,
                         trace := tr1\<rparr>,
                      batch_results @ [make_result cfg v filepath m (now e tr1)])
                 | Inl err \<Rightarrow>
                     (st\<lparr>self_failed_videos :=
                           self_failed_videos st @ [make_failure v (Some (''Save error: '' @ err)) (now e tr1)],
                         trace := tr1\<rparr>,
                      batch_results))
         | None \<Rightarrow>
             (let error_msg = (case extracted of
                                 Some (t, d, m) \<Rightarrow> error m
                               | None \<Rightarrow> Some ''Unknown error'')
              in (st\<lparr>self_failed_videos :=
                        self_failed_videos st @ [make_failure v error_msg (now e (trace st))],
                      progress := p\<lparr>failed_videos := failed_videos p @ [video_id v]\<rparr>\<rparr>,
                  batch_results)))"

text \<open>The body of the loop over the videos of a batch.\<close>

definition process_video ::
  "env \<Rightarrow> config \<Rightarrow> extractor \<times> result list \<Rightarrow> video \<Rightarrow> extractor \<times> result list" where
  "process_video e cfg acc video_data =
     (let (st, batch_results) = acc in
      if video_id video_data \<in> set (completed_videos (progress st)) then acc
      else
        (let (v, tr1) = enrich e (trace st) video_data;
             (tr2, extracted) = retry_extract e (max_retries cfg) (video_id v) [0..<max_retries cfg] (tr1, None);
             (st3, batch_results3) = record_outcome e cfg v extracted (st\<lparr>trace := tr2\<rparr>, batch_results)
         in (st3\<lparr>trace := trace st3 @ [RateLimit (rate_limit_seconds cfg)]\<rparr>, batch_results3)))"

fun process_videos ::
  "env \<Rightarrow> config \<Rightarrow> extractor \<times> result list \<Rightarrow> video list \<Rightarrow> extractor \<times> result list" where
  "process_videos e cfg acc [] = acc"
| "process_videos e cfg acc (video_data # rest) =
     process_videos e cfg (process_video e cfg acc video_data) rest"

text \<open>\<open>save_progress\<close> catches and logs its own failure; the write attempt is an event.\<close>

definition process_video_batch ::
  "env \<Rightarrow> config \<Rightarrow> video list \<Rightarrow> nat \<Rightarrow> extractor \<Rightarrow> extractor \<times> result list" where
  "process_video_batch e cfg videos batch_num st =
     (let (st1, batch_results) = process_videos e cfg (st, []) videos;
          p = (progress st1)\<lparr>last_batch := batch_num\<rparr>
      in (st1\<lparr>progress := p, trace := trace st1 @ [SaveProgress p]\<rparr>, batch_results))"

section \<open>The run\<close>

text \<open>\<open>range(0, n, step)\<close> for a positive step.\<close>

definition range_step :: "nat \<Rightarrow> nat \<Rightarrow> nat list" where
  "range_step n step = map (\<lambda>k. k * step) [0..<(n + step - 1) div step]"

text \<open>The loop over the batches, as a recursion over the start offsets still to visit.\<close>

fun run_batches ::
  "env \<Rightarrow> config \<Rightarrow> bool \<Rightarrow> video list \<Rightarrow> nat \<Rightarrow> nat list \<Rightarrow> extractor \<times> result list \<Rightarrow>
   extractor \<times> result list" where
  "run_batches e cfg resume remaining_videos total_batches [] acc = acc"
| "run_batches e cfg resume remaining_videos total_batches (i # rest) (st, all_results) =
     (let batch_num = i div batch_size cfg + 1 in
      if resume \<and> batch_num \<le> last_batch (progress st) then
        run_batches e cfg resume remaining_videos total_batches rest (st, all_results)
      else
        (let batch_videos = take (batch_size cfg) (drop i remaining_videos);
             (st1, batch_results) = process_video_batch e cfg batch_videos batch_num st;
             st2 = (if batch_num < total_batches
                    then st1\<lparr>trace := trace st1 @ [BatchPause 5]\<rparr> else st1)
         in run_batches e cfg resume remaining_videos total_batches rest
              (st2, all_results @ batch_results)))"

text \<open>
  How \<open>run_extraction\<close> ends: one of its two early returns, an exception, or the end of
  the batch loop, where the accumulated results go to the catalog writer. Writing the
  reports and renaming the progress file, which follow, are not modelled. The outcome
  \<open>NotFollowed\<close> stands for the runs on a loaded dictionary that has the key
  \<open>completed_videos\<close> but is no progress dictionary as the program writes it: where
  such a run fails depends on which key or type is wrong, and is not modelled.
\<close>

datatype run_outcome =
    NoVideosFound
  | AllAlreadyProcessed
  | Raised exn
  | BatchesDone extractor "result list"
  | NotFollowed

text \<open>\<open>run_extraction\<close> from the point where the progress dictionary has been obtained.\<close>

definition run_with_progress :: "env \<Rightarrow> config \<Rightarrow> bool \<Rightarrow> progress \<Rightarrow> run_outcome" where
  "run_with_progress e cfg resume progress0 =
     (let p = (if start_time progress0 = None \<or> start_time progress0 = Some []
               then progress0\<lparr>start_time := Some (now e [])\<rparr> else progress0);
          all_videos = channel_videos e
      in if all_videos = [] then NoVideosFound
         else
           (let remaining_videos =
                  (if resume \<and> completed_videos p \<noteq> []
                   then filter (\<lambda>v. video_id v \<notin> set (completed_videos p)) all_videos
                   else all_videos)
            in if remaining_videos = [] then AllAlreadyProcessed
               else if batch_size cfg = 0 then Raised ''integer division or modulo by zero''
               else
                 (let total_batches = (length remaining_videos + batch_size cfg - 1) div batch_size cfg;
                      (st, all_results) =
                        run_batches e cfg resume remaining_videos total_batches
                          (range_step (length remaining_videos) (batch_size cfg))
                          (\<lparr>progress = p, self_failed_videos = [], trace = []\<rparr>, [])
                  in BatchesDone st all_results)))"

text \<open>
  \<open>run_extraction\<close>. The first use of the loaded value is \<open>progress.get\<close>, which
  only a dictionary has; the next, after the enumeration of the channel, is
  \<open>progress['completed_videos']\<close>. Neither is inside a handler.
\<close>

definition run_extraction :: "env \<Rightarrow> config \<Rightarrow> file_state \<Rightarrow> bool \<Rightarrow> run_outcome" where
  "run_extraction e cfg file resume =
     (let doc = (if resume then load_progress e file
                 else json_of_progress (fresh_progress\<lparr>start_time := Some (now e [])\<rparr>))
      in case doc of
           JObject items \<Rightarrow>
             if channel_videos e = [] then NoVideosFound
             else if resume \<and> map_of items ''completed_videos'' = None
               then Raised ''KeyError: completed_videos''
             else (case progress_of_json doc of
                     Some p \<Rightarrow> run_with_progress e cfg resume p
                   | None \<Rightarrow> NotFollowed)
         | _ \<Rightarrow> Raised ''AttributeError: object has no attribute get'')"

section \<open>Example collaborators\<close>

text \<open>
  Small worlds on which the definitions are run: channels of videos named by one letter and
  a transcript service that answers each video the same way on every call.
\<close>

definition mk_video :: "string \<Rightarrow> video" where
  "mk_video vid =
     \<lparr>video_id = vid, title = ''Shiur '' @ vid, description = [], published_at = ''2024-01-01T00:00:00Z'',
      url = ''https://www.youtube.com/watch?v='' @ vid, duration = None, duration_seconds = None,
      view_count = None\<rparr>"

definition english :: "entry list \<Rightarrow> transcript_list" where
  "english es =
     (let t = \<lparr>language_code = ''en'', is_generated = False, fetch = Inr es\<rparr>
      in \<lparr>find_transcript = (\<lambda>lang. if lang = ''en'' then Some t else None), available = [t]\<rparr>)"

definition spoken :: "exn + transcript_list" where
  "spoken = Inr (english [\<lparr>entry_text = ''amar rava''\<rparr>])"

definition silent :: "exn + transcript_list" where
  "silent = Inr (english [\<lparr>entry_text = '' ''\<rparr>, \<lparr>entry_text = []\<rparr>])"

definition disabled :: "exn + transcript_list" where
  "disabled = Inl ''Subtitles are disabled for this video''"

definition world ::
  "string list \<Rightarrow> (string \<Rightarrow> exn + transcript_list) \<Rightarrow> (string list \<Rightarrow> exn option) \<Rightarrow> env" where
  "world ids transcripts sink =
     \<lparr>youtube_service = False,
      videos_list = (\<lambda>h vid. Inr []),
      list_transcripts = (\<lambda>h vid. transcripts vid),
      write_file = (\<lambda>h path. sink path),
      now = (\<lambda>h. ''2024-06-01T12:00:00''),
      channel_videos = map mk_video ids,
      json_load = (\<lambda>s. Inl ''Expecting value'')\<rparr>"

definition test_config :: "nat \<Rightarrow> config" where
  "test_config n =
     \<lparr>output_directory = ''Mercaz_Daf_Yomi_Transcripts'', batch_size = n, rate_limit_seconds = 2,
      max_retries = 3, organize_by_tractate = True, tractate_patterns = default_tractate_patterns\<rparr>"

text \<open>
  A transcript service that refuses a video until it has been asked \<open>k\<close> times about
  it, and answers from then on.
\<close>

definition recovering :: "nat \<Rightarrow> env" where
  "recovering k =
     (world [''A''] (\<lambda>v. spoken) (\<lambda>p. None))
       \<lparr>list_transcripts :=
          (\<lambda>h vid. if length (filter (\<lambda>ev. ev = ExtractTranscript vid) h) < k then disabled else spoken)\<rparr>"

text \<open>A file sink that refuses the transcript file of one title and accepts every other.\<close>

definition sink_without :: "string \<Rightarrow> string list \<Rightarrow> exn option" where
  "sink_without name path =
     (if path \<noteq> [] \<and> last path = name then Some ''No space left on device'' else None)"

text \<open>A parser that knows three documents, and a world that reads progress files with it.\<close>

definition three_documents :: "string \<Rightarrow> exn + json" where
  "three_documents s =
     (if s = ''{}'' then Inr (JObject [])
      else if s = ''[]'' then Inr (JArray [])
      else if s = ''null'' then Inr JNull
      else Inl ''Expecting value'')"

definition reading_world :: "string list \<Rightarrow> env" where
  "reading_world ids = (world ids (\<lambda>v. spoken) (\<lambda>p. None))\<lparr>json_load := three_documents\<rparr>"

definition start_state :: "progress \<Rightarrow> extractor" where
  "start_state p = \<lparr>progress = p, self_failed_videos = [], trace = []\<rparr>"

definition saved_progress :: "string list \<Rightarrow> string list \<Rightarrow> nat \<Rightarrow> progress" where
  "saved_progress done failed n =
     \<lparr>completed_videos = done, failed_videos = failed, last_batch = n,
      total_processed = length done, start_time = Some ''2024-05-31T09:00:00''\<rparr>"

section \<open>Vocabulary of the properties\<close>

text \<open>The decimal numeral of a natural number, \<open>str(n)\<close>.\<close>

fun dec :: "nat \<Rightarrow> string" where
  "dec n = (if n < 10 then [char_of (48 + n)] else dec (n div 10) @ [char_of (48 + n mod 10)])"

declare dec.simps [simp del]

text \<open>
  A duration token is the designator \<open>PT\<close> followed by up to three units, each a
  non-empty run of digits and its letter; \<open>None\<close> is an absent unit. A run of digits is
  given by the number it denotes and the count of zeros written before the numeral of
  that number.
\<close>

definition is_number :: "string \<Rightarrow> bool" where
  "is_number ds = (ds \<noteq> [] \<and> list_all is_digit ds)"

definition group_ok :: "string option \<Rightarrow> bool" where
  "group_ok g = (case g of None \<Rightarrow> True | Some ds \<Rightarrow> is_number ds)"

definition unit_text :: "string option \<Rightarrow> char \<Rightarrow> string" where
  "unit_text g u = (case g of None \<Rightarrow> [] | Some ds \<Rightarrow> ds @ [u])"

definition duration_token :: "string option \<Rightarrow> string option \<Rightarrow> string option \<Rightarrow> string" where
  "duration_token h m s =
     ''PT'' @ unit_text h CHR ''H'' @ unit_text m CHR ''M'' @ unit_text s CHR ''S''"

definition numeral_text :: "nat \<times> nat \<Rightarrow> string" where
  "numeral_text zn = replicate (fst zn) CHR ''0'' @ dec (snd zn)"

definition unit_digits :: "(nat \<times> nat) option \<Rightarrow> string option" where
  "unit_digits g = map_option numeral_text g"

definition unit_number :: "(nat \<times> nat) option \<Rightarrow> int" where
  "unit_number g = (case g of None \<Rightarrow> 0 | Some zn \<Rightarrow> int (snd zn))"

definition unit_length :: "(nat \<times> nat) option \<Rightarrow> nat" where
  "unit_length g = (case g of None \<Rightarrow> 0 | Some zn \<Rightarrow> length (numeral_text zn))"

text \<open>
  What follows the designator holds no unit: it does not begin with a non-empty run of
  digits followed by one of the three unit letters.
\<close>

definition no_unit :: "string \<Rightarrow> bool" where
  "no_unit r =
     (case dropWhile is_digit r of
        [] \<Rightarrow> True
      | c # _ \<Rightarrow> takeWhile is_digit r = [] \<or> (c \<noteq> CHR ''H'' \<and> c \<noteq> CHR ''M'' \<and> c \<noteq> CHR ''S''))"

definition run_results :: "run_outcome \<Rightarrow> result list option" where
  "run_results out = (case out of BatchesDone st rs \<Rightarrow> Some rs | _ \<Rightarrow> None)"

definition run_trace :: "run_outcome \<Rightarrow> event list option" where
  "run_trace out = (case out of BatchesDone st rs \<Rightarrow> Some (trace st) | _ \<Rightarrow> None)"

text \<open>
  The events of a run of failed extraction attempts of one video: each attempt is one call
  of \<open>extract_transcript\<close>, followed by a wait of 2 to the power of the attempt number
  unless it is the last of the \<open>n\<close> attempts allowed.
\<close>

definition attempt_events :: "string \<Rightarrow> nat \<Rightarrow> nat list \<Rightarrow> event list" where
  "attempt_events vid n attempts =
     concat (map (\<lambda>a. ExtractTranscript vid # (if int a < int n - 1 then [Backoff (2 ^ a)] else []))
               attempts)"


text \<open>The trace when attempt \<open>k\<close> of a video begins, the attempts before it having failed.\<close>

definition attempt_history :: "env \<Rightarrow> config \<Rightarrow> extractor \<Rightarrow> video \<Rightarrow> nat \<Rightarrow> event list" where
  "attempt_history e cfg st v k =
     snd (enrich e (trace st) v) @ attempt_events (video_id v) (max_retries cfg) [0..<k]"

text \<open>The trace and the three extraction variables of a video when its retry loop ends.\<close>

definition item_trace :: "env \<Rightarrow> config \<Rightarrow> extractor \<Rightarrow> video \<Rightarrow> event list" where
  "item_trace e cfg st v =
     fst (retry_extract e (max_retries cfg) (video_id v) [0..<max_retries cfg]
            (snd (enrich e (trace st) v), None))"

definition item_extraction :: "env \<Rightarrow> config \<Rightarrow> extractor \<Rightarrow> video \<Rightarrow> extraction option" where
  "item_extraction e cfg st v =
     snd (retry_extract e (max_retries cfg) (video_id v) [0..<max_retries cfg]
            (snd (enrich e (trace st) v), None))"

definition extracted_nonempty :: "extraction option \<Rightarrow> bool" where
  "extracted_nonempty x =
     (case x of
        Some (Some transcript_text, d, m) \<Rightarrow> transcript_text \<noteq> [] \<and> success m
      | _ \<Rightarrow> False)"

definition final_progress :: "run_outcome \<Rightarrow> progress option" where
  "final_progress out = (case out of BatchesDone st rs \<Rightarrow> Some (progress st) | _ \<Rightarrow> None)"

section \<open>Properties of the duration parser\<close>

lemma not_digit_units [simp]:
  "\<not> is_digit CHR ''H''" "\<not> is_digit CHR ''M''" "\<not> is_digit CHR ''S''"
  by (simp_all add: is_digit_def)

lemma digit_run_split:
  "list_all is_digit ds \<Longrightarrow> \<not> is_digit c \<Longrightarrow>
   takeWhile is_digit (ds @ c # r) = ds \<and> dropWhile is_digit (ds @ c # r) = c # r"
  by (induction ds) auto

lemma match_unit_hit:
  "is_number ds \<Longrightarrow> \<not> is_digit u \<Longrightarrow> match_unit u (ds @ u # r) = (Some ds, r)"
  by (simp add: match_unit_def is_number_def digit_run_split)

lemma match_unit_miss:
  "list_all is_digit ds \<Longrightarrow> \<not> is_digit c \<Longrightarrow> c \<noteq> u \<Longrightarrow>
   match_unit u (ds @ c # r) = (None, ds @ c # r)"
  by (simp add: match_unit_def digit_run_split)

lemma match_unit_nil: "match_unit u [] = (None, [])"
  by (simp add: match_unit_def)

lemma match_unit_no_unit:
  "no_unit r \<Longrightarrow> u \<in> {CHR ''H'', CHR ''M'', CHR ''S''} \<Longrightarrow> match_unit u r = (None, r)"
  by (cases "dropWhile is_digit r")
     (auto simp: match_unit_def no_unit_def Let_def simp del: dropWhile_eq_Nil_conv)

text \<open>The result of the three conversions, in the order the function makes them.\<close>

lemma parse_duration_PT:
  "parse_duration (CHR ''P'' # CHR ''T'' # r) =
     (let (h, r1) = match_unit CHR ''H'' r;
          (m, r2) = match_unit CHR ''M'' r1;
          (sec, r3) = match_unit CHR ''S'' r2
      in case group_int h of
           Inl err \<Rightarrow> Inl err
         | Inr hours \<Rightarrow>
             (case group_int m of
                Inl err \<Rightarrow> Inl err
              | Inr minutes \<Rightarrow>
                  (case group_int sec of
                     Inl err \<Rightarrow> Inl err
                   | Inr seconds \<Rightarrow> Inr (hours * 3600 + minutes * 60 + seconds))))"
  by (simp add: parse_duration_def re_match_duration_def Let_def split: prod.splits)

lemma parse_token:
  assumes "group_ok h" "group_ok m" "group_ok s"
  shows "parse_duration (duration_token h m s) =
           (case group_int h of
              Inl err \<Rightarrow> Inl err
            | Inr hours \<Rightarrow>
                (case group_int m of
                   Inl err \<Rightarrow> Inl err
                 | Inr minutes \<Rightarrow>
                     (case group_int s of
                        Inl err \<Rightarrow> Inl err
                      | Inr seconds \<Rightarrow> Inr (hours * 3600 + minutes * 60 + seconds))))"
proof -
  have H: "match_unit CHR ''H'' (unit_text h CHR ''H'' @ unit_text m CHR ''M'' @ unit_text s CHR ''S'')
           = (h, unit_text m CHR ''M'' @ unit_text s CHR ''S'')"
    using assms
    by (cases h; cases m; cases s)
       (simp_all add: unit_text_def group_ok_def match_unit_nil match_unit_hit match_unit_miss
          is_number_def)
  have M: "match_unit CHR ''M'' (unit_text m CHR ''M'' @ unit_text s CHR ''S'') = (m, unit_text s CHR ''S'')"
    using assms
    by (cases m; cases s)
       (simp_all add: unit_text_def group_ok_def match_unit_nil match_unit_hit match_unit_miss
          is_number_def)
  have S: "match_unit CHR ''S'' (unit_text s CHR ''S'') = (s, [])"
    using assms
    by (cases s)
       (simp_all add: unit_text_def group_ok_def match_unit_nil
          match_unit_hit [where r = "[]", simplified])
  show ?thesis
    by (simp add: duration_token_def parse_duration_PT H M S)
qed

lemma parse_no_PT: "\<not> starts_with ''PT'' t \<Longrightarrow> parse_duration t = Inr 0"
  by (cases t; cases "tl t")
     (auto simp: parse_duration_def re_match_duration_def split: list.splits)

lemma parse_no_unit: "no_unit r \<Longrightarrow> parse_duration (''PT'' @ r) = Inr 0"
  by (simp add: parse_duration_PT match_unit_no_unit group_int_def)

lemma digit_char:
  "k < 10 \<Longrightarrow> is_digit (char_of (48 + k)) \<and> digit_val (char_of (48 + k)) = k"
  by (simp add: is_digit_def digit_val_def)

lemma dec_is_number: "is_number (dec n)"
proof (induction n rule: dec.induct)
  case (1 n)
  show ?case
  proof (cases "n < 10")
    case True
    then show ?thesis
      by (subst dec.simps) (simp add: is_number_def digit_char)
  next
    case False
    have "n mod 10 < 10" by simp
    with False 1 show ?thesis
      by (subst dec.simps) (simp add: is_number_def digit_char del: mod_less_divisor)
  qed
qed

lemma int_of_digits_snoc: "int_of_digits (ds @ [c]) = 10 * int_of_digits ds + digit_val c"
  by (simp add: int_of_digits_def)

lemma int_of_digits_dec: "int_of_digits (dec n) = n"
proof (induction n rule: dec.induct)
  case (1 n)
  show ?case
  proof (cases "n < 10")
    case True
    then show ?thesis
      by (subst dec.simps) (simp add: int_of_digits_def digit_char)
  next
    case False
    have "n mod 10 < 10" by simp
    with False 1 show ?thesis
      by (subst dec.simps) (simp add: int_of_digits_snoc digit_char del: mod_less_divisor)
  qed
qed

lemma zero_digit: "is_digit CHR ''0'' \<and> digit_val CHR ''0'' = 0"
  by (simp add: is_digit_def digit_val_def)

lemma int_of_digits_zeros: "foldl (\<lambda>a c. 10 * a + digit_val c) 0 (replicate z CHR ''0'') = 0"
  by (induction z) (simp_all add: zero_digit)

lemma numeral_text_value: "int_of_digits (numeral_text zn) = snd zn"
  using int_of_digits_dec [of "snd zn"]
  by (simp add: numeral_text_def int_of_digits_def int_of_digits_zeros)

lemma zeros_are_digits: "list_all is_digit (replicate z CHR ''0'')"
  by (induction z) (simp_all add: zero_digit)

lemma numeral_text_is_number: "is_number (numeral_text zn)"
  using dec_is_number [of "snd zn"]
  by (simp add: numeral_text_def is_number_def zeros_are_digits)

lemma unit_digits_ok: "group_ok (unit_digits g)"
  by (cases g) (simp_all add: group_ok_def unit_digits_def numeral_text_is_number)

lemma group_int_unit:
  "group_int (unit_digits g) =
     (if unit_length g > int_max_str_digits then Inl int_limit_error else Inr (unit_number g))"
proof (cases g)
  case None
  then show ?thesis
    by (simp add: group_int_def unit_digits_def unit_length_def unit_number_def)
next
  case (Some zn)
  have "numeral_text zn \<noteq> []"
    using numeral_text_is_number [of zn] by (simp add: is_number_def)
  with Some show ?thesis
    by (simp add: group_int_def unit_digits_def unit_length_def unit_number_def py_int_def
          numeral_text_value)
qed

text \<open>Every non-empty run of digits is the text of a unit in the sense above.\<close>

lemma digit_of_val: "is_digit c \<Longrightarrow> char_of (48 + digit_val c) = c \<and> digit_val c < 10"
proof -
  assume "is_digit c"
  then have b: "48 \<le> (of_char c :: nat)" "(of_char c :: nat) \<le> 57"
    by (simp_all add: is_digit_def Let_def)
  then have "48 + (of_char c - 48) = (of_char c :: nat)" by simp
  then have "char_of (48 + digit_val c) = char_of (of_char c :: nat)"
    by (simp add: digit_val_def)
  with b show ?thesis
    by (simp add: digit_val_def)
qed

lemma digits_are_numeral_text:
  "is_number ds \<Longrightarrow> \<exists>z. ds = numeral_text (z, int_of_digits ds)"
proof (induction ds rule: rev_induct)
  case Nil
  then show ?case by (simp add: is_number_def)
next
  case (snoc c ds)
  from snoc.prems have c: "is_digit c" and all: "list_all is_digit ds"
    by (simp_all add: is_number_def)
  note dc = digit_of_val [OF c]
  show ?case
  proof (cases "ds = []")
    case True
    have "dec (digit_val c) = [c]"
      using dc by (subst dec.simps) simp
    then have "[c] = numeral_text (0, int_of_digits [c])"
      by (simp add: numeral_text_def int_of_digits_def)
    with True show ?thesis by auto
  next
    case False
    with all have "is_number ds" by (simp add: is_number_def)
    from snoc.IH [OF this] obtain z where z: "ds = numeral_text (z, int_of_digits ds)" ..
    show ?thesis
    proof (cases "int_of_digits ds = 0")
      case True
      have "char_of (48 + digit_val CHR ''0'') = CHR ''0''"
        using digit_of_val zero_digit by blast
      then have d0: "dec 0 = ''0''"
        by (subst dec.simps) (simp add: zero_digit)
      have dc1: "dec (digit_val c) = [c]"
        using dc by (subst dec.simps) simp
      have v: "int_of_digits (ds @ [c]) = digit_val c"
        using True by (simp add: int_of_digits_snoc)
      have dsz: "ds = replicate (Suc z) CHR ''0''"
        using z True d0 by (simp add: numeral_text_def replicate_append_same)
      have "numeral_text (Suc z, int_of_digits (ds @ [c])) = replicate (Suc z) CHR ''0'' @ [c]"
        unfolding v by (simp add: numeral_text_def dc1)
      also have "\<dots> = ds @ [c]"
        using dsz by (simp only:)
      finally have "ds @ [c] = numeral_text (Suc z, int_of_digits (ds @ [c]))"
        by simp
      then show ?thesis ..
    next
      case pos: False
      let ?n = "10 * int_of_digits ds + digit_val c"
      have "\<not> ?n < 10" using pos by simp
      moreover have "?n div 10 = int_of_digits ds" "?n mod 10 = digit_val c"
        using dc by simp_all
      ultimately have "dec ?n = dec (int_of_digits ds) @ [c]"
        using dc by (subst dec.simps) simp
      then have "ds @ [c] = numeral_text (z, int_of_digits (ds @ [c]))"
        using z by (simp add: numeral_text_def int_of_digits_snoc)
      then show ?thesis ..
    qed
  qed
qed

text \<open>
  Claim C8, as stated: the duration parser is total over all strings and returns hours
  times 3600 plus minutes times 60 plus seconds on every token. The conversion of a
  captured run of digits refuses a run of more than 4300 digits, and nothing in the parser
  catches that: on the token below, whose seconds are written with 4301 digits, the
  parser raises instead of returning a number.
\<close>

theorem parse_duration_limit_counterexample:
  "parse_duration (''PT'' @ replicate 4301 CHR ''1'' @ ''S'') = Inl int_limit_error"
proof -
  let ?ds = "replicate 4301 CHR ''1''"
  have one: "is_digit CHR ''1''"
    by (simp add: is_digit_def)
  have "list_all is_digit (replicate n CHR ''1'')" for n
    by (induction n) (simp_all add: one)
  then have ok: "group_ok (Some ?ds)"
    by (simp add: group_ok_def is_number_def)
  have none: "group_ok None"
    by (simp add: group_ok_def)
  have tok: "duration_token None None (Some ?ds) = ''PT'' @ ?ds @ ''S''"
    by (simp add: duration_token_def unit_text_def)
  have g: "group_int (Some ?ds) = Inl int_limit_error" "group_int None = Inr 0"
    by (simp_all add: group_int_def py_int_def int_max_str_digits_def)
  show ?thesis
    using parse_token [OF none none ok] unfolding tok g by simp
qed

text \<open>
  Claim C8, amended. On a token made of the designator and any subset of the hour, minute
  and second units, in this order, each written with at most 4300 digits, the parser
  returns hours times 3600 plus minutes times 60 plus seconds, an absent unit counting as
  zero; when a unit is written with more than 4300 digits it raises the error of the
  integer conversion. On a string that does not start with the designator, and on one
  where no unit follows the designator, it returns 0.
\<close>

theorem parse_duration_within_limit:
  "(unit_length h \<le> int_max_str_digits \<and> unit_length m \<le> int_max_str_digits \<and>
    unit_length s \<le> int_max_str_digits \<longrightarrow>
      parse_duration (duration_token (unit_digits h) (unit_digits m) (unit_digits s)) =
        Inr (unit_number h * 3600 + unit_number m * 60 + unit_number s)) \<and>
   (int_max_str_digits < unit_length h \<or> int_max_str_digits < unit_length m \<or>
    int_max_str_digits < unit_length s \<longrightarrow>
      parse_duration (duration_token (unit_digits h) (unit_digits m) (unit_digits s)) =
        Inl int_limit_error) \<and>
   (\<not> starts_with ''PT'' t \<longrightarrow> parse_duration t = Inr 0) \<and>
   (no_unit r \<longrightarrow> parse_duration (''PT'' @ r) = Inr 0)"
  using parse_no_unit [of r]
  by (simp add: parse_token [OF unit_digits_ok unit_digits_ok unit_digits_ok] group_int_unit
        parse_no_PT)

theorem parse_duration_within_limit_witness:
  "parse_duration ''PT1H05S'' = Inr 3605 \<and>
   parse_duration ''PT12M'' = Inr 720 \<and>
   parse_duration (duration_token (unit_digits (Some (4300, 7))) None None) = Inl int_limit_error \<and>
   \<not> starts_with ''PT'' ''P1DT2H'' \<and> parse_duration ''P1DT2H'' = Inr 0 \<and>
   no_unit ''12X'' \<and> parse_duration ''PT12X'' = Inr 0"
proof -
  let ?h = "Some (0, 1) :: (nat \<times> nat) option"
  let ?s = "Some (1, 5) :: (nat \<times> nat) option"
  let ?m = "Some (0, 12) :: (nat \<times> nat) option"
  let ?big = "Some (4300, 7) :: (nat \<times> nat) option"
  let ?none = "None :: (nat \<times> nat) option"
  have t1: "duration_token (unit_digits ?h) (unit_digits ?none) (unit_digits ?s) = ''PT1H05S''"
    by code_simp
  have l1: "unit_length ?h \<le> int_max_str_digits \<and> unit_length ?none \<le> int_max_str_digits \<and>
            unit_length ?s \<le> int_max_str_digits"
    by code_simp
  have v1: "unit_number ?h * 3600 + unit_number ?none * 60 + unit_number ?s = 3605"
    by (simp add: unit_number_def)
  have t2: "duration_token (unit_digits ?none) (unit_digits ?m) (unit_digits ?none) = ''PT12M''"
    by code_simp
  have l2: "unit_length ?none \<le> int_max_str_digits \<and> unit_length ?m \<le> int_max_str_digits \<and>
            unit_length ?none \<le> int_max_str_digits"
    by code_simp
  have v2: "unit_number ?none * 3600 + unit_number ?m * 60 + unit_number ?none = 720"
    by (simp add: unit_number_def)
  have d7: "length (dec 7) = 1"
    by (subst dec.simps) simp
  have l3: "int_max_str_digits < unit_length ?big \<or> int_max_str_digits < unit_length ?none \<or>
            int_max_str_digits < unit_length ?none"
    by (simp add: unit_length_def numeral_text_def d7 int_max_str_digits_def)
  have n3: "unit_digits ?none = None"
    by (simp add: unit_digits_def)
  have b: "\<not> starts_with ''PT'' ''P1DT2H''"
    by code_simp
  have c: "no_unit ''12X''"
    by code_simp
  note w1 = parse_duration_within_limit [where h = ?h and m = ?none and s = ?s,
              THEN conjunct1, THEN mp, OF l1]
  note w2 = parse_duration_within_limit [where h = ?none and m = ?m and s = ?none,
              THEN conjunct1, THEN mp, OF l2]
  note w3 = parse_duration_within_limit [where h = ?big and m = ?none and s = ?none,
              THEN conjunct2, THEN conjunct1, THEN mp, OF l3]
  note w4 = parse_duration_within_limit [where t = "''P1DT2H''",
              THEN conjunct2, THEN conjunct2, THEN conjunct1, THEN mp, OF b]
  note w5 = parse_duration_within_limit [where r = "''12X''",
              THEN conjunct2, THEN conjunct2, THEN conjunct2, THEN mp, OF c]
  have r1: "parse_duration ''PT1H05S'' = Inr 3605"
    using w1 unfolding t1 v1 .
  have r2: "parse_duration ''PT12M'' = Inr 720"
    using w2 unfolding t2 v2 .
  have r3: "parse_duration (duration_token (unit_digits ?big) None None) = Inl int_limit_error"
    using w3 unfolding n3 .
  have r5: "parse_duration ''PT12X'' = Inr 0"
    using w5 by simp
  show ?thesis
    using r1 r2 r3 b w4 c r5 by blast
qed

section \<open>Properties of the classifier\<close>

lemma series_type_not_events: "series_type_of txt \<noteq> ''Events''"
  by (simp add: series_type_of_def)

lemma override_words_unfold:
  "list_ex (\<lambda>word. in_str word txt) override_words =
     (in_str ''special'' txt \<or> in_str ''event'' txt \<or> in_str ''announcement'' txt)"
  by (simp add: override_words_def)

text \<open>
  When \<open>classify_video\<close> returns (Special_Series, Events): the three words are its last
  check but one, after the table of tractates and after the phrase daf yomi.
\<close>

lemma classify_video_special_events_iff:
  "classify_video tbl ttl d = (''Special_Series'', ''Events'') \<longleftrightarrow>
     (scan_tractates tbl (combined_text ttl d) = None \<and>
      \<not> in_str ''daf yomi'' (combined_text ttl d) \<and>
      (in_str ''special'' (combined_text ttl d) \<or> in_str ''event'' (combined_text ttl d) \<or>
       in_str ''announcement'' (combined_text ttl d)))"
proof (cases "scan_tractates tbl (combined_text ttl d)")
  case None
  then show ?thesis
    by (simp add: classify_video_def Let_def override_words_unfold)
next
  case (Some t)
  then show ?thesis
    by (simp add: classify_video_def Let_def series_type_not_events)
qed

text \<open>The classifier of the organizing utility gives the three words precedence.\<close>

lemma classify_content_override:
  "list_ex (\<lambda>word. in_str word (combined_text ttl d)) override_words \<Longrightarrow>
   classify_content tractates series ttl d = (''Special_Series'', ''Events'')"
  by (simp add: classify_content_def Let_def)

text \<open>
  Claim C6. A text that holds one of the words special, event or announcement is
  classified (Special_Series, Events), whatever pattern of the table of tractates it also
  matches. \<open>classify_content\<close> does this (\<open>classify_content_override\<close>);
  \<open>classify_video\<close> does not, because it returns from the scan of the table before it
  looks for the words. The title below holds two of the words and a pattern of the first
  table entry: \<open>classify_video\<close> files it under that entry, \<open>classify_content\<close> under
  the special series.
\<close>

theorem classify_video_misses_override:
  "in_str ''special'' (combined_text ''Special Event: Berachos'' []) \<and>
   in_str ''event'' (combined_text ''Special Event: Berachos'' []) \<and>
   classify_video default_tractate_patterns ''Special Event: Berachos'' [] = (''Berachos'', ''General'') \<and>
   classify_content organizer_tractate_patterns series_types ''Special Event: Berachos'' [] =
     (''Special_Series'', ''Events'')"
  by code_simp

section \<open>Properties of the progress store\<close>

lemma load_progress_fresh:
  "f = Missing \<or> (\<exists>err. f = Unreadable err) \<or>
   (\<exists>s err. f = Contents s \<and> json_load e s = Inl err) \<Longrightarrow>
   load_progress e f = json_of_progress fresh_progress"
  by (auto simp: load_progress_def path_exists_def open_read_def)

lemma load_progress_parsed:
  "json_load e s = Inr doc \<Longrightarrow> load_progress e (Contents s) = doc"
  by (simp add: load_progress_def path_exists_def open_read_def)

lemma json_strings_map: "json_strings (map JString xs) = Some xs"
  by (induction xs) simp_all

lemma progress_of_json_of_progress: "progress_of_json (json_of_progress p) = Some p"
  by (cases "start_time p")
     (simp_all add: progress_of_json_def json_of_progress_def as_strings_def as_nat_def
        as_optional_string_def json_strings_map)

lemma run_extraction_loaded:
  assumes "json_load e s = Inr (json_of_progress p)"
  shows "run_extraction e cfg (Contents s) True = run_with_progress e cfg True p"
proof -
  have doc: "load_progress e (Contents s) = json_of_progress p"
    using assms by (rule load_progress_parsed)
  have key: "map_of [(''completed_videos'', JArray (map JString (completed_videos p))),
        (''failed_videos'', JArray (map JString (failed_videos p))),
        (''last_batch'', JInt (int (last_batch p))),
        (''total_processed'', JInt (int (total_processed p))),
        (''start_time'', (case start_time p of None \<Rightarrow> JNull | Some t \<Rightarrow> JString t))]
        ''completed_videos'' \<noteq> None"
    by simp
  have empty: "channel_videos e = [] \<Longrightarrow> run_with_progress e cfg True p = NoVideosFound"
    by (simp add: run_with_progress_def Let_def)
  show ?thesis
    unfolding run_extraction_def doc Let_def
    using key empty progress_of_json_of_progress [of p]
    by (simp add: json_of_progress_def)
qed

text \<open>
  Claim C7. Loading the progress never raises and gives the fresh progress under every
  storage condition (file absent, unreadable, or with corrupt content), so that corruption
  never reaches the caller. For a missing file and for a file whose opening, reading or
  parsing raises, this is \<open>load_progress_fresh\<close>. It does not hold for content that
  parses and is no progress dictionary. Below, the progress file holds an empty
  dictionary, null, or an empty list: \<open>load_progress\<close> returns the parsed value as it
  is, not the fresh progress, and the run that loaded it ends with an exception at its
  first use of a key.
\<close>

theorem load_progress_hands_on_any_document:
  "load_progress (reading_world [''A'']) (Contents ''{}'') = JObject [] \<and>
   load_progress (reading_world [''A'']) (Contents ''{}'') \<noteq> json_of_progress fresh_progress \<and>
   run_extraction (reading_world [''A'']) (test_config 2) (Contents ''{}'') True =
     Raised ''KeyError: completed_videos'' \<and>
   load_progress (reading_world [''A'']) (Contents ''null'') = JNull \<and>
   run_extraction (reading_world [''A'']) (test_config 2) (Contents ''null'') True =
     Raised ''AttributeError: object has no attribute get'' \<and>
   load_progress (reading_world [''A'']) (Contents ''[]'') = JArray [] \<and>
   run_extraction (reading_world [''A'']) (test_config 2) (Contents ''[]'') True =
     Raised ''AttributeError: object has no attribute get''"
  by code_simp

section \<open>Properties of the batch loop\<close>

lemma process_videos_append:
  "process_videos e cfg acc (xs @ ys) = process_videos e cfg (process_videos e cfg acc xs) ys"
  by (induction xs arbitrary: acc) simp_all

lemma process_video_skip:
  "video_id v \<in> set (completed_videos (progress (fst acc))) \<Longrightarrow> process_video e cfg acc v = acc"
  by (cases acc) (simp add: process_video_def)

text \<open>
  Claim C9. When the loop over a batch reaches a video whose identifier is in the
  completed list, the loop body returns the extractor state and the batch results as they
  were: the progress, the list of failures, the batch results and the trace of remote
  calls and waits are unchanged, so there is no metadata fetch, no extraction attempt, no
  record and no rate-limit wait for it. The batch gives the same result as the batch
  without that video.
\<close>

theorem skip_completed_frame:
  assumes "video_id v \<in> set (completed_videos (progress (fst (process_videos e cfg acc xs))))"
  shows "process_video e cfg (process_videos e cfg acc xs) v = process_videos e cfg acc xs \<and>
         process_videos e cfg acc (xs @ v # ys) = process_videos e cfg acc (xs @ ys)"
  using assms by (simp add: process_videos_append process_video_skip)

theorem skip_completed_frame_witness:
  "video_id (mk_video ''A'') \<in> set (completed_videos (progress (fst
     (process_videos (world [''A'', ''C''] (\<lambda>v. spoken) (\<lambda>p. None)) (test_config 2)
        (start_state (saved_progress [''A'', ''B''] [] 0), []) [])))) \<and>
   process_video (world [''A'', ''C''] (\<lambda>v. spoken) (\<lambda>p. None)) (test_config 2)
     (start_state (saved_progress [''A'', ''B''] [] 0), []) (mk_video ''A'') =
     (start_state (saved_progress [''A'', ''B''] [] 0), []) \<and>
   process_videos (world [''A'', ''C''] (\<lambda>v. spoken) (\<lambda>p. None)) (test_config 2)
     (start_state (saved_progress [''A'', ''B''] [] 0), []) [mk_video ''A'', mk_video ''C''] =
   process_videos (world [''A'', ''C''] (\<lambda>v. spoken) (\<lambda>p. None)) (test_config 2)
     (start_state (saved_progress [''A'', ''B''] [] 0), []) [mk_video ''C'']"
proof -
  have h: "video_id (mk_video ''A'') \<in> set (completed_videos (progress (fst
     (process_videos (world [''A'', ''C''] (\<lambda>v. spoken) (\<lambda>p. None)) (test_config 2)
        (start_state (saved_progress [''A'', ''B''] [] 0), []) []))))"
    by (simp add: mk_video_def start_state_def saved_progress_def)
  show ?thesis
    using h skip_completed_frame [OF h, of "[mk_video ''C'']"]
    by simp
qed

section \<open>Properties of the retry loop\<close>

lemma attempt_events_Cons:
  "attempt_events vid n (a # as) =
     ExtractTranscript vid # (if int a < int n - 1 then [Backoff (2 ^ a)] else []) @ attempt_events vid n as"
  by (simp add: attempt_events_def)

lemma attempt_events_Nil: "attempt_events vid n [] = []"
  by (simp add: attempt_events_def)

lemma attempt_events_append:
  "attempt_events vid n (as @ bs) = attempt_events vid n as @ attempt_events vid n bs"
  by (simp add: attempt_events_def)




lemma retry_all_fail:
  assumes "\<forall>h. \<not> success (snd (snd (extract_transcript e h vid)))"
  shows "retry_extract e n vid attempts (tr, x) =
           (tr @ attempt_events vid n attempts,
            if attempts = [] then x
            else Some (extract_transcript e (tr @ attempt_events vid n (butlast attempts)) vid))"
proof (induction attempts arbitrary: tr x)
  case Nil
  then show ?case by (simp add: attempt_events_Nil)
next
  case (Cons a rest)
  show ?case
    using assms
    by (cases "rest = []")
       (simp_all add: Cons.IH Let_def attempt_events_Cons attempt_events_Nil)
qed



lemma enrich_video_id: "video_id (fst (enrich e tr v)) = video_id v"
  by (simp add: enrich_def update_video_def split: option.splits)

lemma process_video_unfold:
  assumes "video_id v \<notin> set (completed_videos (progress st))"
  shows "process_video e cfg (st, rs) v =
           (let (st3, rs3) = record_outcome e cfg (fst (enrich e (trace st) v)) (item_extraction e cfg st v)
                               (st\<lparr>trace := item_trace e cfg st v\<rparr>, rs)
            in (st3\<lparr>trace := trace st3 @ [RateLimit (rate_limit_seconds cfg)]\<rparr>, rs3))"
proof (cases "enrich e (trace st) v")
  case (Pair v' tr1)
  with enrich_video_id [of e "trace st" v] have "video_id v' = video_id v"
    by simp
  with assms Pair show ?thesis
    by (simp add: process_video_def item_extraction_def item_trace_def Let_def split: prod.splits)
qed

lemma record_failure:
  assumes "\<not> extracted_nonempty x"
  shows "record_outcome e cfg v x (st, rs) =
           (st\<lparr>self_failed_videos := self_failed_videos st @
                   [make_failure v (case x of Some (t, d, m) \<Rightarrow> error m | None \<Rightarrow> Some ''Unknown error'')
                      (now e (trace st))],
                progress := (progress st)\<lparr>failed_videos := failed_videos (progress st) @ [video_id v]\<rparr>\<rparr>,
            rs)"
  using assms
  by (auto simp: record_outcome_def extracted_nonempty_def Let_def split: option.splits)

lemma record_save:
  assumes "x = Some (Some tx, d, m)" "tx \<noteq> []" "success m"
  shows "record_outcome e cfg v x (st, rs) =
           (case save_transcript e cfg (trace st @ [SaveTranscript (video_id v) tx]) v of
              Inr filepath \<Rightarrow>
                (st\<lparr>progress := (progress st)\<lparr>completed_videos := completed_videos (progress st) @ [video_id v],
                                     total_processed := total_processed (progress st) + 1\<rparr>,
                    trace := trace st @ [SaveTranscript (video_id v) tx]\<rparr>,
                 rs @ [make_result cfg v filepath m (now e (trace st @ [SaveTranscript (video_id v) tx]))])
            | Inl err \<Rightarrow>
                (st\<lparr>self_failed_videos := self_failed_videos st @
                       [make_failure v (Some (''Save error: '' @ err))
                          (now e (trace st @ [SaveTranscript (video_id v) tx]))],
                    trace := trace st @ [SaveTranscript (video_id v) tx]\<rparr>,
                 rs))"
  using assms by (simp add: record_outcome_def Let_def)

lemma butlast_upt0: "butlast [0..<n] = [0..<n - 1]"
  by (cases n) simp_all

lemma item_all_fail:
  assumes "\<forall>h. \<not> success (snd (snd (extract_transcript e h (video_id v))))"
  shows "item_trace e cfg st v = attempt_history e cfg st v (max_retries cfg)"
    and "item_extraction e cfg st v =
           (if max_retries cfg = 0 then None
            else Some (extract_transcript e (attempt_history e cfg st v (max_retries cfg - 1)) (video_id v)))"
    and "\<not> extracted_nonempty (item_extraction e cfg st v)"
proof -
  show a: "item_trace e cfg st v = attempt_history e cfg st v (max_retries cfg)"
    by (simp add: item_trace_def attempt_history_def retry_all_fail [OF assms])
  show b: "item_extraction e cfg st v =
           (if max_retries cfg = 0 then None
            else Some (extract_transcript e (attempt_history e cfg st v (max_retries cfg - 1)) (video_id v)))"
    by (simp add: item_extraction_def attempt_history_def retry_all_fail [OF assms] butlast_upt0)
  show "\<not> extracted_nonempty (item_extraction e cfg st v)"
    using assms
    by (cases "extract_transcript e (attempt_history e cfg st v (max_retries cfg - 1)) (video_id v)")
       (auto simp: b extracted_nonempty_def split: option.splits dest: spec [of _ "attempt_history e cfg st v (max_retries cfg - 1)"])
qed


lemma extract_success_shape:
  assumes "success (snd (snd (extract_transcript e h vid)))"
  shows "\<exists>data m. extract_transcript e h vid = (Some (strip (flatten_entries data)), Some data, m) \<and>
                  data \<noteq> [] \<and> error m = None"
  using assms
  by (auto simp: extract_transcript_def Let_def initial_result_def
           split: sum.splits option.splits list.splits prod.splits if_splits)






section \<open>Properties of the outcome of a video\<close>

lemma retry_result_origin:
  "snd (retry_extract e n vid attempts (tr, x)) = x \<or>
   (\<exists>h. snd (retry_extract e n vid attempts (tr, x)) = Some (extract_transcript e h vid))"
proof (induction attempts arbitrary: tr x)
  case Nil
  then show ?case by simp
next
  case (Cons a rest)
  show ?case
  proof (cases "success (snd (snd (extract_transcript e tr vid)))")
    case True
    then show ?thesis by (auto simp: Let_def)
  next
    case False
    then show ?thesis
      using Cons.IH [of "if int a < int n - 1 then (tr @ [ExtractTranscript vid]) @ [Backoff (2 ^ a)]
                         else tr @ [ExtractTranscript vid]" "Some (extract_transcript e tr vid)"]
      by (auto simp: Let_def)
  qed
qed

lemma item_extraction_origin:
  "item_extraction e cfg st v = None \<or>
   (\<exists>h. item_extraction e cfg st v = Some (extract_transcript e h (video_id v)))"
  using retry_result_origin [of e "max_retries cfg" "video_id v" "[0..<max_retries cfg]"
          "snd (enrich e (trace st) v)" None]
  by (auto simp: item_extraction_def)

lemma space_is_space: "is_space CHR '' ''"
  by (simp add: is_space_def)

lemma blank_flatten:
  "\<forall>en \<in> set data. list_all is_space (entry_text en) \<Longrightarrow> list_all is_space (flatten_entries data)"
  by (induction data) (simp_all add: flatten_entries_def space_is_space)

lemma strip_blank: "list_all is_space s \<Longrightarrow> strip s = []"
proof -
  assume "list_all is_space s"
  then have "dropWhile is_space s = []"
    by (simp add: list_all_iff)
  then show ?thesis
    by (simp add: strip_def del: dropWhile_eq_Nil_conv)
qed

lemma extracted_shape:
  assumes "item_extraction e cfg st v = Some (Some tx, d, m)" "success m"
  shows "\<exists>data. d = Some data \<and> tx = strip (flatten_entries data) \<and> error m = None"
proof -
  from item_extraction_origin [of e cfg st v] assms(1)
  obtain h where h: "extract_transcript e h (video_id v) = (Some tx, d, m)"
    by auto
  with assms(2) have "success (snd (snd (extract_transcript e h (video_id v))))"
    by simp
  from extract_success_shape [OF this] h show ?thesis
    by auto
qed

text \<open>
  Claim C10. A result record is appended for a video only when the retry loop ended with a
  successful extraction whose text, the stripped concatenation of the fetched entries, is
  not empty; the record has status success. When the loop ends with an extraction that
  reports success although the text of every fetched entry is white space, the stripped
  text is empty and the video takes the failure branch: no result record, the identifier
  joins the failed list and not the completed list, and the failure record carries the
  error field of that extraction, which is null.
\<close>

theorem success_only_from_text:
  "(snd (process_video e cfg (st, rs) v) \<noteq> rs \<longrightarrow>
      extracted_nonempty (item_extraction e cfg st v) \<and>
      (\<exists>tx data m. item_extraction e cfg st v = Some (Some tx, Some data, m) \<and>
                    tx = strip (flatten_entries data) \<and> tx \<noteq> [] \<and>
                    (\<exists>r. snd (process_video e cfg (st, rs) v) = rs @ [r] \<and> status r = ''success'' \<and>
                         result_word_count r = word_count m))) \<and>
   (video_id v \<notin> set (completed_videos (progress st)) \<and>
    item_extraction e cfg st v = Some (Some tx, Some data, m) \<and> success m \<and>
    (\<forall>en \<in> set data. list_all is_space (entry_text en)) \<longrightarrow>
      tx = [] \<and> error m = None \<and>
      snd (process_video e cfg (st, rs) v) = rs \<and>
      completed_videos (progress (fst (process_video e cfg (st, rs) v))) = completed_videos (progress st) \<and>
      failed_videos (progress (fst (process_video e cfg (st, rs) v))) =
        failed_videos (progress st) @ [video_id v] \<and>
      self_failed_videos (fst (process_video e cfg (st, rs) v)) =
        self_failed_videos st @
          [make_failure (fst (enrich e (trace st) v)) None (now e (item_trace e cfg st v))])"
proof (rule conjI; rule impI)
  assume grew: "snd (process_video e cfg (st, rs) v) \<noteq> rs"
  have todo: "video_id v \<notin> set (completed_videos (progress st))"
  proof
    assume "video_id v \<in> set (completed_videos (progress st))"
    then have "process_video e cfg (st, rs) v = (st, rs)"
      by (simp add: process_video_skip)
    with grew show False by simp
  qed
  have ne: "extracted_nonempty (item_extraction e cfg st v)"
  proof (rule ccontr)
    assume "\<not> extracted_nonempty (item_extraction e cfg st v)"
    then have "snd (process_video e cfg (st, rs) v) = rs"
      unfolding process_video_unfold [OF todo] by (simp add: record_failure)
    with grew show False by simp
  qed
  from ne obtain tx d m where x: "item_extraction e cfg st v = Some (Some tx, d, m)"
    and tx: "tx \<noteq> []" and m: "success m"
    by (auto simp: extracted_nonempty_def split: option.splits)
  from extracted_shape [OF x m] obtain data where d: "d = Some data" "tx = strip (flatten_entries data)"
    by auto
  have "\<exists>r. snd (process_video e cfg (st, rs) v) = rs @ [r] \<and> status r = ''success'' \<and>
            result_word_count r = word_count m"
    using grew
    by (cases "save_transcript e cfg (item_trace e cfg st v @ [SaveTranscript (video_id v) tx])
                 (fst (enrich e (trace st) v))")
       (simp_all add: process_video_unfold [OF todo] record_save [OF x tx m] enrich_video_id
          make_result_def)
  with x d tx ne
  show "extracted_nonempty (item_extraction e cfg st v) \<and>
        (\<exists>tx data m. item_extraction e cfg st v = Some (Some tx, Some data, m) \<and>
                    tx = strip (flatten_entries data) \<and> tx \<noteq> [] \<and>
                    (\<exists>r. snd (process_video e cfg (st, rs) v) = rs @ [r] \<and> status r = ''success'' \<and>
                         result_word_count r = word_count m))"
    by blast
next
  assume h: "video_id v \<notin> set (completed_videos (progress st)) \<and>
    item_extraction e cfg st v = Some (Some tx, Some data, m) \<and> success m \<and>
    (\<forall>en \<in> set data. list_all is_space (entry_text en))"
  then have todo: "video_id v \<notin> set (completed_videos (progress st))"
    and x: "item_extraction e cfg st v = Some (Some tx, Some data, m)" and m: "success m"
    and blank: "\<forall>en \<in> set data. list_all is_space (entry_text en)"
    by simp_all
  from extracted_shape [OF x m] have shape: "tx = strip (flatten_entries data)" "error m = None"
    by auto
  with blank have empty: "tx = []"
    by (simp add: strip_blank blank_flatten)
  then have no: "\<not> extracted_nonempty (item_extraction e cfg st v)"
    by (simp add: x extracted_nonempty_def)
  have concl: "tx = [] \<and> error m = None \<and>
      snd (process_video e cfg (st, rs) v) = rs \<and>
      completed_videos (progress (fst (process_video e cfg (st, rs) v))) = completed_videos (progress st) \<and>
      failed_videos (progress (fst (process_video e cfg (st, rs) v))) =
        failed_videos (progress st) @ [video_id v] \<and>
      self_failed_videos (fst (process_video e cfg (st, rs) v)) =
        self_failed_videos st @
          [make_failure (fst (enrich e (trace st) v)) None (now e (item_trace e cfg st v))]"
    unfolding process_video_unfold [OF todo] record_failure [OF no]
    using empty shape(2) by (simp add: x enrich_video_id)
  show "tx = [] \<and> error m = None \<and>
      snd (process_video e cfg (st, rs) v) = rs \<and>
      completed_videos (progress (fst (process_video e cfg (st, rs) v))) = completed_videos (progress st) \<and>
      failed_videos (progress (fst (process_video e cfg (st, rs) v))) =
        failed_videos (progress st) @ [video_id v] \<and>
      self_failed_videos (fst (process_video e cfg (st, rs) v)) =
        self_failed_videos st @
          [make_failure (fst (enrich e (trace st) v)) None (now e (item_trace e cfg st v))]"
    by (rule concl)
qed


theorem success_only_from_text_witness:
  "snd (process_video (world [''A''] (\<lambda>v. spoken) (\<lambda>p. None)) (test_config 2)
          (start_state fresh_progress, []) (mk_video ''A'')) \<noteq> [] \<and>
   extracted_nonempty (item_extraction (world [''A''] (\<lambda>v. spoken) (\<lambda>p. None)) (test_config 2)
          (start_state fresh_progress) (mk_video ''A'')) \<and>
   video_id (mk_video ''A'') \<notin> set (completed_videos (progress (start_state fresh_progress))) \<and>
   item_extraction (world [''A''] (\<lambda>v. silent) (\<lambda>p. None)) (test_config 2)
          (start_state fresh_progress) (mk_video ''A'') =
     Some (Some [], Some [\<lparr>entry_text = '' ''\<rparr>, \<lparr>entry_text = []\<rparr>],
           \<lparr>success = True, transcript_type = Some ''manual'', language = Some ''en'', error = None,
            word_count = 0\<rparr>) \<and>
   list_all (\<lambda>en. list_all is_space (entry_text en)) [\<lparr>entry_text = '' ''\<rparr>, \<lparr>entry_text = []\<rparr>] \<and>
   snd (process_video (world [''A''] (\<lambda>v. silent) (\<lambda>p. None)) (test_config 2)
          (start_state fresh_progress, []) (mk_video ''A'')) = [] \<and>
   failed_videos (progress (fst (process_video (world [''A''] (\<lambda>v. silent) (\<lambda>p. None)) (test_config 2)
          (start_state fresh_progress, []) (mk_video ''A'')))) = [''A''] \<and>
   map failure_error (self_failed_videos (fst (process_video (world [''A''] (\<lambda>v. silent) (\<lambda>p. None))
          (test_config 2) (start_state fresh_progress, []) (mk_video ''A'')))) = [None]"
proof -
  let ?e1 = "world [''A''] (\<lambda>v. spoken) (\<lambda>p. None)"
  let ?e2 = "world [''A''] (\<lambda>v. silent) (\<lambda>p. None)"
  let ?cfg = "test_config 2"
  let ?st = "start_state fresh_progress"
  let ?data = "[\<lparr>entry_text = '' ''\<rparr>, \<lparr>entry_text = []\<rparr>]"
  let ?m = "\<lparr>success = True, transcript_type = Some ''manual'', language = Some ''en'', error = None,
             word_count = 0\<rparr>"
  have g1: "snd (process_video ?e1 ?cfg (?st, []) (mk_video ''A'')) \<noteq> []"
    by code_simp
  have n2: "video_id (mk_video ''A'') \<notin> set (completed_videos (progress ?st))"
    by (simp add: start_state_def fresh_progress_def)
  have x2: "item_extraction ?e2 ?cfg ?st (mk_video ''A'') = Some (Some [], Some ?data, ?m)"
    by code_simp
  have b2: "\<forall>en \<in> set ?data. list_all is_space (entry_text en)"
    by (simp add: is_space_def)
  have p0: "failed_videos (progress ?st) = []" "self_failed_videos ?st = []"
    by (simp_all add: start_state_def fresh_progress_def)
  have vA: "video_id (mk_video ''A'') = ''A''"
    by (simp add: mk_video_def)
  have h2: "video_id (mk_video ''A'') \<notin> set (completed_videos (progress ?st)) \<and>
            item_extraction ?e2 ?cfg ?st (mk_video ''A'') = Some (Some [], Some ?data, ?m) \<and>
            success ?m \<and> (\<forall>en \<in> set ?data. list_all is_space (entry_text en))"
    using n2 x2 b2 by simp
  note t1 = success_only_from_text [where e = ?e1 and cfg = ?cfg and st = ?st and rs = "[]"
              and v = "mk_video ''A''", THEN conjunct1, THEN mp, OF g1]
  note t2 = success_only_from_text [where e = ?e2 and cfg = ?cfg and st = ?st and rs = "[]"
              and v = "mk_video ''A''" and tx = "[]" and data = ?data and m = ?m,
              THEN conjunct2, THEN mp, OF h2]
  have r1: "extracted_nonempty (item_extraction ?e1 ?cfg ?st (mk_video ''A''))"
    using t1 by blast
  have r2: "snd (process_video ?e2 ?cfg (?st, []) (mk_video ''A'')) = []"
    and r3: "failed_videos (progress (fst (process_video ?e2 ?cfg (?st, []) (mk_video ''A'')))) = [''A'']"
    and r4: "map failure_error (self_failed_videos (fst (process_video ?e2 ?cfg (?st, []) (mk_video ''A'')))) = [None]"
    using t2 by (simp_all add: p0 vA make_failure_def)
  have b2': "list_all (\<lambda>en. list_all is_space (entry_text en)) ?data"
    by (simp add: is_space_def)
  show ?thesis
    using g1 r1 n2 x2 b2' r2 r3 r4 by blast
qed

section \<open>Properties of the progress sets\<close>

lemma process_video_progress:
  "(completed_videos (progress (fst (process_video e cfg (st, rs) v))) = completed_videos (progress st) \<and>
    failed_videos (progress (fst (process_video e cfg (st, rs) v))) = failed_videos (progress st)) \<or>
   (video_id v \<notin> set (completed_videos (progress st)) \<and>
    completed_videos (progress (fst (process_video e cfg (st, rs) v))) =
      completed_videos (progress st) @ [video_id v] \<and>
    failed_videos (progress (fst (process_video e cfg (st, rs) v))) = failed_videos (progress st)) \<or>
   (video_id v \<notin> set (completed_videos (progress st)) \<and>
    completed_videos (progress (fst (process_video e cfg (st, rs) v))) = completed_videos (progress st) \<and>
    failed_videos (progress (fst (process_video e cfg (st, rs) v))) =
      failed_videos (progress st) @ [video_id v])"
proof (cases "video_id v \<in> set (completed_videos (progress st))")
  case True
  then show ?thesis by (simp add: process_video_skip)
next
  case todo: False
  show ?thesis
  proof (cases "extracted_nonempty (item_extraction e cfg st v)")
    case False
    show ?thesis
      unfolding process_video_unfold [OF todo] record_failure [OF False]
      using todo by (simp add: enrich_video_id)
  next
    case True
    then obtain tx d m where x: "item_extraction e cfg st v = Some (Some tx, d, m)"
      and tx: "tx \<noteq> []" and m: "success m"
      by (auto simp: extracted_nonempty_def split: option.splits)
    show ?thesis
      unfolding process_video_unfold [OF todo] record_save [OF x tx m]
      using todo
      by (cases "save_transcript e cfg (item_trace e cfg st v @ [SaveTranscript (video_id v) tx])
                   (fst (enrich e (trace st) v))")
         (simp_all add: enrich_video_id)
  qed
qed

lemma process_video_sets:
  shows "set (completed_videos (progress (fst (process_video e cfg (st, rs) v)))) \<subseteq>
           insert (video_id v) (set (completed_videos (progress st)))"
    and "set (failed_videos (progress (fst (process_video e cfg (st, rs) v)))) \<subseteq>
           insert (video_id v) (set (failed_videos (progress st)))"
    and "set (failed_videos (progress st)) \<subseteq>
           set (failed_videos (progress (fst (process_video e cfg (st, rs) v))))"
    and "video_id v \<in> set (failed_videos (progress (fst (process_video e cfg (st, rs) v)))) \<Longrightarrow>
         video_id v \<in> set (failed_videos (progress st)) \<or>
         video_id v \<notin> set (completed_videos (progress (fst (process_video e cfg (st, rs) v))))"
proof -
  define c' where "c' = completed_videos (progress (fst (process_video e cfg (st, rs) v)))"
  define f' where "f' = failed_videos (progress (fst (process_video e cfg (st, rs) v)))"
  define c where "c = completed_videos (progress st)"
  define f where "f = failed_videos (progress st)"
  have step: "(c' = c \<and> f' = f) \<or> (video_id v \<notin> set c \<and> c' = c @ [video_id v] \<and> f' = f) \<or>
              (video_id v \<notin> set c \<and> c' = c \<and> f' = f @ [video_id v])"
    unfolding c'_def f'_def c_def f_def by (rule process_video_progress)
  have 1: "set c' \<subseteq> insert (video_id v) (set c)"
    using step by auto
  have 2: "set f' \<subseteq> insert (video_id v) (set f)"
    using step by auto
  have 3: "set f \<subseteq> set f'"
    using step by auto
  have 4: "video_id v \<in> set f' \<Longrightarrow> video_id v \<in> set f \<or> video_id v \<notin> set c'"
    using step by auto
  show "set (completed_videos (progress (fst (process_video e cfg (st, rs) v)))) \<subseteq>
           insert (video_id v) (set (completed_videos (progress st)))"
    using 1 unfolding c'_def c_def .
  show "set (failed_videos (progress (fst (process_video e cfg (st, rs) v)))) \<subseteq>
           insert (video_id v) (set (failed_videos (progress st)))"
    using 2 unfolding f'_def f_def .
  show "set (failed_videos (progress st)) \<subseteq>
           set (failed_videos (progress (fst (process_video e cfg (st, rs) v))))"
    using 3 unfolding f'_def f_def .
  show "video_id v \<in> set (failed_videos (progress (fst (process_video e cfg (st, rs) v)))) \<Longrightarrow>
         video_id v \<in> set (failed_videos (progress st)) \<or>
         video_id v \<notin> set (completed_videos (progress (fst (process_video e cfg (st, rs) v))))"
    using 4 unfolding f'_def f_def c'_def .
qed

lemma overlap_step:
  "C' \<subseteq> insert x C \<Longrightarrow> F' \<subseteq> insert x Fl \<Longrightarrow> (x \<in> F' \<Longrightarrow> x \<in> Fl \<or> x \<notin> C') \<Longrightarrow>
   C \<inter> Fl \<subseteq> Z \<Longrightarrow> (x \<in> Fl \<Longrightarrow> x \<in> Z) \<Longrightarrow> C' \<inter> F' \<subseteq> Z"
  by blast

lemma future_step:
  "F' \<subseteq> insert x Fl \<Longrightarrow> x \<notin> I \<Longrightarrow> x \<notin> G \<Longrightarrow> Fl \<inter> (I \<union> G) \<subseteq> Z \<Longrightarrow> F' \<inter> (I \<union> G) \<subseteq> Z"
  by blast

lemma head_of_future: "Fl \<inter> insert x W \<subseteq> Z \<Longrightarrow> (x \<in> Fl \<longrightarrow> x \<in> Z) \<and> Fl \<inter> W \<subseteq> Z"
  by blast

text \<open>
  While a list of videos with distinct identifiers is processed, an identifier that is in
  both lists was in the set \<open>Z\<close> before, as long as this holds at the start and the
  identifiers of the failed list that are still to come (in this list, or in the set \<open>F\<close>
  of later ones) are in \<open>Z\<close>.
\<close>

lemma process_videos_invariant:
  assumes "distinct (map video_id vs)"
      and "set (completed_videos (progress (fst acc))) \<inter> set (failed_videos (progress (fst acc))) \<subseteq> Z"
      and "set (failed_videos (progress (fst acc))) \<inter> (video_id ` set vs \<union> F) \<subseteq> Z"
      and "video_id ` set vs \<inter> F = {}"
  shows "set (completed_videos (progress (fst (process_videos e cfg acc vs)))) \<inter>
         set (failed_videos (progress (fst (process_videos e cfg acc vs)))) \<subseteq> Z \<and>
         set (failed_videos (progress (fst (process_videos e cfg acc vs)))) \<inter> F \<subseteq> Z \<and>
         set (failed_videos (progress (fst acc))) \<subseteq>
           set (failed_videos (progress (fst (process_videos e cfg acc vs))))"
  using assms
proof (induction vs arbitrary: acc)
  case Nil
  then show ?case by simp
next
  case (Cons v vs)
  obtain st rs where acc: "acc = (st, rs)" by (cases acc)
  let ?acc' = "process_video e cfg (st, rs) v"
  note s = process_video_sets [where e = e and cfg = cfg and st = st and rs = rs and v = v]
  have d: "distinct (map video_id vs)" and fresh: "video_id v \<notin> video_id ` set vs"
    using Cons.prems(1) by simp_all
  have P2: "set (completed_videos (progress st)) \<inter> set (failed_videos (progress st)) \<subseteq> Z"
    using Cons.prems(2) unfolding acc by simp
  have P3': "set (failed_videos (progress st)) \<inter> (insert (video_id v) (video_id ` set vs \<union> F)) \<subseteq> Z"
    using Cons.prems(3) unfolding acc by simp
  have P3: "video_id v \<in> set (failed_videos (progress st)) \<Longrightarrow> video_id v \<in> Z"
    by (rule head_of_future [OF P3', THEN conjunct1, THEN mp])
  have P3r: "set (failed_videos (progress st)) \<inter> (video_id ` set vs \<union> F) \<subseteq> Z"
    by (rule head_of_future [OF P3', THEN conjunct2])
  have P4': "insert (video_id v) (video_id ` set vs) \<inter> F = {}"
    using Cons.prems(4) by simp
  then have P4: "video_id v \<notin> F" and P4r: "video_id ` set vs \<inter> F = {}"
    by blast+
  have a2: "set (completed_videos (progress (fst ?acc'))) \<inter> set (failed_videos (progress (fst ?acc'))) \<subseteq> Z"
    by (rule overlap_step [OF s(1) s(2) s(4) P2 P3])
  have a3: "set (failed_videos (progress (fst ?acc'))) \<inter> (video_id ` set vs \<union> F) \<subseteq> Z"
    by (rule future_step [OF s(2) fresh P4 P3r])
  have r: "process_videos e cfg acc (v # vs) = process_videos e cfg ?acc' vs"
    unfolding acc by simp
  note ih = Cons.IH [OF d a2 a3 P4r]
  have z: "set (failed_videos (progress (fst acc))) \<subseteq>
           set (failed_videos (progress (fst (process_videos e cfg ?acc' vs))))"
    unfolding acc fst_conv by (rule order_trans [OF s(3)]) (rule ih [THEN conjunct2, THEN conjunct2])
  show ?case
    unfolding r by (intro conjI) (rule ih [THEN conjunct1], rule ih [THEN conjunct2, THEN conjunct1], rule z)
qed

lemma process_video_batch_progress:
  "progress (fst (process_video_batch e cfg vs n st)) =
     (progress (fst (process_videos e cfg (st, []) vs)))\<lparr>last_batch := n\<rparr>"
  by (cases "process_videos e cfg (st, []) vs") (simp add: process_video_batch_def Let_def)

lemma process_video_batch_invariant:
  assumes "distinct (map video_id vs)"
      and "set (completed_videos (progress st)) \<inter> set (failed_videos (progress st)) \<subseteq> Z"
      and "set (failed_videos (progress st)) \<inter> (video_id ` set vs \<union> F) \<subseteq> Z"
      and "video_id ` set vs \<inter> F = {}"
  shows "set (completed_videos (progress (fst (process_video_batch e cfg vs n st)))) \<inter>
         set (failed_videos (progress (fst (process_video_batch e cfg vs n st)))) \<subseteq> Z \<and>
         set (failed_videos (progress (fst (process_video_batch e cfg vs n st)))) \<inter> F \<subseteq> Z \<and>
         set (failed_videos (progress st)) \<subseteq>
           set (failed_videos (progress (fst (process_video_batch e cfg vs n st))))"
  using process_videos_invariant [of vs "(st, [])" Z F e cfg] assms
  by (simp add: process_video_batch_progress)

lemma range_step_spaced: "sorted_wrt (\<lambda>i j. i + step \<le> j) (range_step n step)"
proof -
  have "sorted_wrt (\<lambda>x y. x * step + step \<le> y * step) [0..<(n + step - 1) div step]"
  proof (rule sorted_wrt_mono_rel [OF _ sorted_wrt_upt])
    fix x y :: nat
    assume "x < y"
    then have "Suc x * step \<le> y * step"
      by (intro mult_le_mono1) simp
    then show "x * step + step \<le> y * step"
      by (simp add: add.commute)
  qed
  then show ?thesis
    by (simp add: range_step_def sorted_wrt_map)
qed

lemma batch_ids_disjoint:
  assumes "distinct (map video_id R)"
  shows "distinct (map video_id (take n (drop i R)))"
    and "video_id ` set (take n (drop i R)) \<inter> video_id ` set (drop (i + n) R) = {}"
    and "video_id ` set (take n (drop i R)) \<union> video_id ` set (drop (i + n) R) \<subseteq> video_id ` set (drop i R)"
proof -
  let ?L = "drop i (map video_id R)"
  have dL: "distinct ?L" using assms by simp
  have eq1: "map video_id (take n (drop i R)) = take n ?L"
    by (simp add: take_map drop_map)
  have eq2: "map video_id (drop (i + n) R) = drop n ?L"
    by (simp add: drop_map add.commute)
  have eq3: "map video_id (drop i R) = ?L"
    by (simp add: drop_map)
  have img: "\<And>xs. video_id ` set xs = set (map video_id xs)"
    by simp
  show "distinct (map video_id (take n (drop i R)))"
    unfolding eq1 using dL by simp
  show "video_id ` set (take n (drop i R)) \<inter> video_id ` set (drop (i + n) R) = {}"
    unfolding img eq1 eq2 using dL by (rule set_take_disj_set_drop_if_distinct) simp
  show "video_id ` set (take n (drop i R)) \<union> video_id ` set (drop (i + n) R) \<subseteq> video_id ` set (drop i R)"
    unfolding img eq1 eq2 eq3 by (metis append_take_drop_id set_append subset_refl)
qed

lemma disjoint_from_future: "A \<inter> Dlo \<subseteq> Z \<Longrightarrow> Di \<subseteq> Dlo \<Longrightarrow> X \<subseteq> Di \<Longrightarrow> A \<inter> X \<subseteq> Z"
  by blast

lemma run_batches_invariant:
  assumes "distinct (map video_id R)"
      and "sorted_wrt (\<lambda>i j. i + batch_size cfg \<le> j) idx"
      and "\<forall>i \<in> set idx. lo \<le> i"
      and "set (completed_videos (progress st)) \<inter> set (failed_videos (progress st)) \<subseteq> Z"
      and "set (failed_videos (progress st)) \<inter> video_id ` set (drop lo R) \<subseteq> Z"
  shows "set (completed_videos (progress (fst (run_batches e cfg resume R tb idx (st, rs))))) \<inter>
         set (failed_videos (progress (fst (run_batches e cfg resume R tb idx (st, rs))))) \<subseteq> Z \<and>
         set (failed_videos (progress st)) \<subseteq>
           set (failed_videos (progress (fst (run_batches e cfg resume R tb idx (st, rs)))))"
  using assms(2-)
proof (induction idx arbitrary: lo st rs)
  case Nil
  then show ?case by simp
next
  case (Cons i rest)
  let ?n = "i div batch_size cfg + 1"
  have sorted: "sorted_wrt (\<lambda>i j. i + batch_size cfg \<le> j) rest"
    and later: "\<forall>j \<in> set rest. i + batch_size cfg \<le> j"
    using Cons.prems(1) by simp_all
  have lo: "lo \<le> i" using Cons.prems(2) by simp
  show ?case
  proof (cases "resume \<and> ?n \<le> last_batch (progress st)")
    case True
    have rest_lo: "\<forall>j \<in> set rest. lo \<le> j" using Cons.prems(2) by simp
    have skip: "run_batches e cfg resume R tb (i # rest) (st, rs) =
                run_batches e cfg resume R tb rest (st, rs)"
      using True by simp
    show ?thesis
      unfolding skip by (rule Cons.IH [OF sorted rest_lo Cons.prems(3) Cons.prems(4)])
  next
    case False
    define batch where "batch = take (batch_size cfg) (drop i R)"
    define b where "b = process_video_batch e cfg batch ?n st"
    define st2 where "st2 = (if ?n < tb then (fst b)\<lparr>trace := trace (fst b) @ [BatchPause 5]\<rparr> else fst b)"
    note ids = batch_ids_disjoint [OF assms(1), of "batch_size cfg" i, folded batch_def]
    have sub: "video_id ` set (drop i R) \<subseteq> video_id ` set (drop lo R)"
      by (rule image_mono) (rule set_drop_subset_set_drop [OF lo])
    have f: "set (failed_videos (progress st)) \<inter>
             (video_id ` set batch \<union> video_id ` set (drop (i + batch_size cfg) R)) \<subseteq> Z"
      by (rule disjoint_from_future [OF Cons.prems(4) sub ids(3)])
    note inv = process_video_batch_invariant [OF ids(1) Cons.prems(3) f ids(2), of e cfg ?n, folded b_def]
    have p2: "progress st2 = progress (fst b)"
      unfolding st2_def by simp
    have i1: "set (completed_videos (progress st2)) \<inter> set (failed_videos (progress st2)) \<subseteq> Z"
      unfolding p2 by (rule inv [THEN conjunct1])
    have i2: "set (failed_videos (progress st2)) \<inter> video_id ` set (drop (i + batch_size cfg) R) \<subseteq> Z"
      unfolding p2 by (rule inv [THEN conjunct2, THEN conjunct1])
    have step: "run_batches e cfg resume R tb (i # rest) (st, rs) =
                run_batches e cfg resume R tb rest (st2, rs @ snd b)"
      using False unfolding st2_def b_def batch_def
      by (cases "process_video_batch e cfg (take (batch_size cfg) (drop i R)) ?n st") (auto simp: Let_def)
    note ih = Cons.IH [OF sorted later i1 i2, of "rs @ snd b"]
    have m1: "set (failed_videos (progress st)) \<subseteq> set (failed_videos (progress st2))"
      unfolding p2 by (rule inv [THEN conjunct2, THEN conjunct2])
    have m2: "set (failed_videos (progress st)) \<subseteq>
              set (failed_videos (progress (fst (run_batches e cfg resume R tb rest (st2, rs @ snd b)))))"
      by (rule order_trans [OF m1 ih [THEN conjunct2]])
    show ?thesis
      unfolding step by (intro conjI) (rule ih [THEN conjunct1], rule m2)
  qed
qed


lemma process_videos_failed_mono:
  "set (failed_videos (progress (fst acc))) \<subseteq>
   set (failed_videos (progress (fst (process_videos e cfg acc vs))))"
proof (induction vs arbitrary: acc)
  case Nil
  show ?case by simp
next
  case (Cons v vs)
  obtain st rs where acc: "acc = (st, rs)" by (cases acc)
  have r: "process_videos e cfg (st, rs) (v # vs) = process_videos e cfg (process_video e cfg (st, rs) v) vs"
    by simp
  show ?case
    unfolding acc fst_conv r
    by (rule order_trans [OF process_video_sets(3) Cons.IH])
qed

lemma run_batches_failed_mono:
  "set (failed_videos (progress st)) \<subseteq>
   set (failed_videos (progress (fst (run_batches e cfg resume R tb idx (st, rs)))))"
proof (induction idx arbitrary: st rs)
  case Nil
  show ?case by simp
next
  case (Cons i rest)
  let ?n = "i div batch_size cfg + 1"
  show ?case
  proof (cases "resume \<and> ?n \<le> last_batch (progress st)")
    case True
    then have skip: "run_batches e cfg resume R tb (i # rest) (st, rs) =
                     run_batches e cfg resume R tb rest (st, rs)"
      by simp
    show ?thesis unfolding skip by (rule Cons.IH)
  next
    case False
    define b where "b = process_video_batch e cfg (take (batch_size cfg) (drop i R)) ?n st"
    define st2 where "st2 = (if ?n < tb then (fst b)\<lparr>trace := trace (fst b) @ [BatchPause 5]\<rparr> else fst b)"
    have step: "run_batches e cfg resume R tb (i # rest) (st, rs) =
                run_batches e cfg resume R tb rest (st2, rs @ snd b)"
      using False unfolding st2_def b_def
      by (cases "process_video_batch e cfg (take (batch_size cfg) (drop i R)) ?n st") (auto simp: Let_def)
    have "set (failed_videos (progress st)) \<subseteq>
          set (failed_videos (progress (fst (process_videos e cfg (st, []) (take (batch_size cfg) (drop i R))))))"
      using process_videos_failed_mono [of "(st, [])"] by simp
    then have m1: "set (failed_videos (progress st)) \<subseteq> set (failed_videos (progress st2))"
      unfolding st2_def b_def by (simp add: process_video_batch_progress)
    show ?thesis
      unfolding step by (rule order_trans [OF m1 Cons.IH])
  qed
qed

lemma run_with_progress_batches:
  assumes "run_with_progress e cfg resume p0 = BatchesDone st rs"
  shows "\<exists>p R tb. completed_videos p = completed_videos p0 \<and> failed_videos p = failed_videos p0 \<and>
           (R = channel_videos e \<or> R = filter (\<lambda>v. video_id v \<notin> set (completed_videos p)) (channel_videos e)) \<and>
           st = fst (run_batches e cfg resume R tb (range_step (length R) (batch_size cfg))
                       (\<lparr>progress = p, self_failed_videos = [], trace = []\<rparr>, []))"
proof -
  define p where "p = (if start_time p0 = None \<or> start_time p0 = Some []
                       then p0\<lparr>start_time := Some (now e [])\<rparr> else p0)"
  define R where "R = (if resume \<and> completed_videos p \<noteq> []
                       then filter (\<lambda>v. video_id v \<notin> set (completed_videos p)) (channel_videos e)
                       else channel_videos e)"
  define tb where "tb = (length R + batch_size cfg - 1) div batch_size cfg"
  have sets: "completed_videos p = completed_videos p0" "failed_videos p = failed_videos p0"
    unfolding p_def by simp_all
  have R: "R = channel_videos e \<or> R = filter (\<lambda>v. video_id v \<notin> set (completed_videos p)) (channel_videos e)"
    unfolding R_def by simp
  have unf: "run_with_progress e cfg resume p0 =
        (if channel_videos e = [] then NoVideosFound
         else if R = [] then AllAlreadyProcessed
         else if batch_size cfg = 0 then Raised ''integer division or modulo by zero''
         else BatchesDone
                (fst (run_batches e cfg resume R tb (range_step (length R) (batch_size cfg))
                        (\<lparr>progress = p, self_failed_videos = [], trace = []\<rparr>, [])))
                (snd (run_batches e cfg resume R tb (range_step (length R) (batch_size cfg))
                        (\<lparr>progress = p, self_failed_videos = [], trace = []\<rparr>, []))))"
    unfolding run_with_progress_def p_def [symmetric] Let_def R_def [symmetric] tb_def [symmetric]
    by (simp add: case_prod_beta)
  from assms have "st = fst (run_batches e cfg resume R tb (range_step (length R) (batch_size cfg))
                       (\<lparr>progress = p, self_failed_videos = [], trace = []\<rparr>, []))"
    unfolding unf by (simp split: if_splits)
  with sets R show ?thesis by blast
qed

text \<open>
  Claim C5, as stated: at the end of every run the completed list and the failed list are
  disjoint, an identifier failed in an earlier run leaving the failed list when a later
  run processes it successfully. Nothing ever removes an identifier from the failed list.
  Below, a first run over the videos X and Y with batch size 1 is cut off after the save
  of batch 1, in which X failed; the saved progress is loaded by a second run, by which
  time the channel lists a new video N first. The second run skips batch 1, which is now
  N, processes X successfully and ends with X in both lists. The two lists also meet
  without any earlier run when the enumeration names a video twice: the first occurrence
  of A fails at each of its three attempts, the second one succeeds, and A ends in both
  lists.
\<close>

theorem failed_not_moved_counterexample:
  "progress (fst (process_video_batch (world [''X'', ''Y''] (\<lambda>v. disabled) (\<lambda>p. None)) (test_config 1)
      [mk_video ''X''] 1 (start_state (fresh_progress\<lparr>start_time := Some ''2024-05-31T09:00:00''\<rparr>)))) =
     saved_progress [] [''X''] 1 \<and>
   final_progress (run_with_progress (world [''N'', ''X'', ''Y''] (\<lambda>v. spoken) (\<lambda>p. None)) (test_config 1)
      True (saved_progress [] [''X''] 1)) = Some (saved_progress [''X'', ''Y''] [''X''] 3) \<and>
   ''X'' \<in> set (completed_videos (saved_progress [''X'', ''Y''] [''X''] 3)) \<inter>
           set (failed_videos (saved_progress [''X'', ''Y''] [''X''] 3)) \<and>
   map_option (\<lambda>p. (completed_videos p, failed_videos p))
     (final_progress (run_with_progress ((recovering 3)\<lparr>channel_videos := [mk_video ''A'', mk_video ''A'']\<rparr>)
        (test_config 2) False fresh_progress)) = Some ([''A''], [''A''])"
  by code_simp

text \<open>
  Claim C5, amended. Identifiers are never removed from the failed list: every identifier
  in the failed list of the loaded progress is in the failed list at the end of the run,
  also when the run processed it successfully and appended it to the completed list. When
  the enumerated identifiers are distinct, the identifiers in both lists at the end of a
  run are exactly the identifiers of the loaded failed list that are in the completed list
  at the end; so the two lists are disjoint at the end of such a run exactly when no
  identifier of the loaded failed list is completed, before or in this run.
\<close>

theorem failed_set_kept_and_overlap:
  assumes "final_progress (run_with_progress e cfg resume p0) = Some p'"
  shows "set (failed_videos p0) \<subseteq> set (failed_videos p') \<and>
         (distinct (map video_id (channel_videos e)) \<longrightarrow>
          set (completed_videos p') \<inter> set (failed_videos p') =
            set (completed_videos p') \<inter> set (failed_videos p0))"
proof -
  from assms obtain st rs where out: "run_with_progress e cfg resume p0 = BatchesDone st rs"
    and p': "p' = progress st"
    by (cases "run_with_progress e cfg resume p0") (simp_all add: final_progress_def)
  from run_with_progress_batches [OF out] obtain p R tb where
    c: "completed_videos p = completed_videos p0" and f: "failed_videos p = failed_videos p0"
    and R: "R = channel_videos e \<or> R = filter (\<lambda>v. video_id v \<notin> set (completed_videos p)) (channel_videos e)"
    and st: "st = fst (run_batches e cfg resume R tb (range_step (length R) (batch_size cfg))
                       (\<lparr>progress = p, self_failed_videos = [], trace = []\<rparr>, []))"
    by blast
  let ?st0 = "\<lparr>progress = p, self_failed_videos = [], trace = []\<rparr>"
  have kept: "set (failed_videos p0) \<subseteq> set (failed_videos (progress st))"
    using run_batches_failed_mono [of ?st0 e cfg resume R tb "range_step (length R) (batch_size cfg)" "[]"]
    unfolding st by (simp add: f)
  have both: "set (completed_videos (progress st)) \<inter> set (failed_videos (progress st)) \<subseteq>
              set (failed_videos p0)"
    if d: "distinct (map video_id (channel_videos e))"
  proof -
    have dR: "distinct (map video_id R)"
      using R d by (elim disjE) (simp_all add: distinct_map_filter)
    have h3: "\<forall>i \<in> set (range_step (length R) (batch_size cfg)). 0 \<le> i"
      by simp
    have h4: "set (completed_videos (progress ?st0)) \<inter> set (failed_videos (progress ?st0)) \<subseteq>
              set (failed_videos p0)"
      by (simp add: f)
    have h5: "set (failed_videos (progress ?st0)) \<inter> video_id ` set (drop 0 R) \<subseteq> set (failed_videos p0)"
      by (simp add: f)
    show ?thesis
      unfolding st
      by (rule run_batches_invariant [OF dR range_step_spaced h3 h4 h5, THEN conjunct1])
  qed
  from kept both show ?thesis unfolding p' by blast
qed

theorem failed_set_kept_and_overlap_witness:
  "final_progress (run_with_progress
      (world [''A'', ''B'', ''C'', ''D''] (\<lambda>v. if v = ''B'' then disabled else spoken) (\<lambda>p. None))
      (test_config 2) True (saved_progress [''A''] [''B''] 1)) =
     Some (saved_progress [''A'', ''D''] [''B''] 2) \<and>
   distinct (map video_id (channel_videos
      (world [''A'', ''B'', ''C'', ''D''] (\<lambda>v. if v = ''B'' then disabled else spoken) (\<lambda>p. None)))) \<and>
   failed_videos (saved_progress [''A''] [''B''] 1) = [''B''] \<and>
   ''B'' \<in> set (failed_videos (saved_progress [''A'', ''D''] [''B''] 2)) \<and>
   set (completed_videos (saved_progress [''A'', ''D''] [''B''] 2)) \<inter>
     set (failed_videos (saved_progress [''A'', ''D''] [''B''] 2)) = {}"
proof -
  let ?e = "world [''A'', ''B'', ''C'', ''D''] (\<lambda>v. if v = ''B'' then disabled else spoken) (\<lambda>p. None)"
  let ?p = "saved_progress [''A'', ''D''] [''B''] 2"
  have run: "final_progress (run_with_progress ?e (test_config 2) True (saved_progress [''A''] [''B''] 1)) = Some ?p"
    by code_simp
  have d: "distinct (map video_id (channel_videos ?e))"
    by (simp add: world_def mk_video_def)
  have l: "failed_videos (saved_progress [''A''] [''B''] 1) = [''B'']"
    by (simp add: saved_progress_def)
  have c: "set (completed_videos ?p) \<inter> set [''B''] = {}"
    by (simp add: saved_progress_def)
  note t = failed_set_kept_and_overlap [OF run]
  have "set [''B''] \<subseteq> set (failed_videos ?p)"
    using t [THEN conjunct1] unfolding l .
  then have kept: "''B'' \<in> set (failed_videos ?p)"
    by simp
  have "set (completed_videos ?p) \<inter> set (failed_videos ?p) = set (completed_videos ?p) \<inter> set [''B'']"
    using t [THEN conjunct2, THEN mp, OF d] unfolding l .
  then have "set (completed_videos ?p) \<inter> set (failed_videos ?p) = {}"
    unfolding c .
  with run d l kept show ?thesis
    by blast
qed

section \<open>Runs that end differently from the specification\<close>

lemma save_failure_effect:
  assumes "video_id v \<notin> set (completed_videos (progress st))"
      and "item_extraction e cfg st v = Some (Some tx, d, m)" "tx \<noteq> []" "success m"
      and "save_transcript e cfg (item_trace e cfg st v @ [SaveTranscript (video_id v) tx])
             (fst (enrich e (trace st) v)) = Inl err"
  shows "progress (fst (process_video e cfg (st, rs) v)) = progress st \<and>
         snd (process_video e cfg (st, rs) v) = rs \<and>
         self_failed_videos (fst (process_video e cfg (st, rs) v)) =
           self_failed_videos st @
             [make_failure (fst (enrich e (trace st) v)) (Some (''Save error: '' @ err))
                (now e (item_trace e cfg st v @ [SaveTranscript (video_id v) tx]))]"
  unfolding process_video_unfold [OF assms(1)] record_save [OF assms(2,3,4)]
  using assms(5) by (simp add: enrich_video_id)

text \<open>
  Claim C4. A video whose extraction succeeds and whose file cannot be written is recorded
  as a failure, its identifier joins the failed list of the progress, no exception leaves
  the loop and the other videos are still processed. The batch below has two videos with
  transcripts; the sink refuses the file of A and accepts the file of B. The loop goes on
  to B, which is completed, and a failure record with the message of the sink is made for
  A, but the failed list of the progress stays empty: the branch that handles the write
  error does not append to it, unlike the branch for a failed extraction.
\<close>

theorem save_failure_missing_from_failed_set:
  "failed_videos (progress (fst (process_video_batch
      (world [''A'', ''B''] (\<lambda>v. spoken) (sink_without ''Shiur_A_A.txt'')) (test_config 2)
      [mk_video ''A'', mk_video ''B''] 1 (start_state fresh_progress)))) = [] \<and>
   completed_videos (progress (fst (process_video_batch
      (world [''A'', ''B''] (\<lambda>v. spoken) (sink_without ''Shiur_A_A.txt'')) (test_config 2)
      [mk_video ''A'', mk_video ''B''] 1 (start_state fresh_progress)))) = [''B''] \<and>
   map failure_video_id (self_failed_videos (fst (process_video_batch
      (world [''A'', ''B''] (\<lambda>v. spoken) (sink_without ''Shiur_A_A.txt'')) (test_config 2)
      [mk_video ''A'', mk_video ''B''] 1 (start_state fresh_progress)))) = [''A''] \<and>
   map failure_error (self_failed_videos (fst (process_video_batch
      (world [''A'', ''B''] (\<lambda>v. spoken) (sink_without ''Shiur_A_A.txt'')) (test_config 2)
      [mk_video ''A'', mk_video ''B''] 1 (start_state fresh_progress)))) =
     [Some ''Save error: No space left on device''] \<and>
   map result_video_id (snd (process_video_batch
      (world [''A'', ''B''] (\<lambda>v. spoken) (sink_without ''Shiur_A_A.txt'')) (test_config 2)
      [mk_video ''A'', mk_video ''B''] 1 (start_state fresh_progress))) = [''B'']"
  by code_simp

lemma run_batches_skip:
  "resume \<Longrightarrow> i div batch_size cfg + 1 \<le> last_batch (progress st) \<Longrightarrow>
   run_batches e cfg resume R tb (i # rest) (st, rs) = run_batches e cfg resume R tb rest (st, rs)"
  by simp

lemma resume_from_index_zero:
  "run_trace (run_with_progress (world [''A'', ''B'', ''C''] (\<lambda>v. spoken) (\<lambda>p. None)) (test_config 2) True
     (saved_progress [''A'', ''B''] [] 0)) =
     Some [ExtractTranscript ''C'', SaveTranscript ''C'' ''amar rava'', RateLimit 2,
           SaveProgress (saved_progress [''A'', ''B'', ''C''] [] 1)]"
  by code_simp

text \<open>
  Claim C1. A resumed run whose loaded progress has the completed videos A and B, over the
  channel A, B, C, processes exactly C. Below, a first run with batch size 2 completes A
  and B in batch 1 and saves the progress with batch index 1. The resumed run loads it
  and filters A and B out, so that C is batch 1 of what remains; that batch is skipped
  because its index is not above the saved one. The run ends with the loaded progress, no
  result and an empty trace: C is never fetched, extracted or recorded.
\<close>

theorem resume_drops_remaining_item:
  "progress (fst (process_video_batch (world [''A'', ''B'', ''C''] (\<lambda>v. spoken) (\<lambda>p. None)) (test_config 2)
      [mk_video ''A'', mk_video ''B''] 1
      (start_state (fresh_progress\<lparr>start_time := Some ''2024-05-31T09:00:00''\<rparr>)))) =
     saved_progress [''A'', ''B''] [] 1 \<and>
   run_with_progress (world [''A'', ''B'', ''C''] (\<lambda>v. spoken) (\<lambda>p. None)) (test_config 2) True
     (saved_progress [''A'', ''B''] [] 1) =
     BatchesDone (start_state (saved_progress [''A'', ''B''] [] 1)) []"
  by code_simp

text \<open>
  Claim C2. Batches are taken in increasing index order, a batch whose index is not above
  the saved one is not opened, and a run resumed after the save of batch 1 of 2 skips the
  videos of batch 1 and begins with batch 2. Below, the channel is A, B, C, D with batch
  size 2, so that batch 2 is C, D. In batch 1 video A is completed and B fails, and the
  progress is saved with batch index 1. The resumed run filters A out and cuts B, C, D
  into new batches: B, C is batch 1 and is skipped, D is batch 2. It processes D only, so
  C, a video of the old batch 2, is never processed.
\<close>

theorem resume_misses_second_batch:
  "progress (fst (process_video_batch
      (world [''A'', ''B'', ''C'', ''D''] (\<lambda>v. if v = ''B'' then disabled else spoken) (\<lambda>p. None))
      (test_config 2) [mk_video ''A'', mk_video ''B''] 1
      (start_state (fresh_progress\<lparr>start_time := Some ''2024-05-31T09:00:00''\<rparr>)))) =
     saved_progress [''A''] [''B''] 1 \<and>
   run_trace (run_with_progress
      (world [''A'', ''B'', ''C'', ''D''] (\<lambda>v. if v = ''B'' then disabled else spoken) (\<lambda>p. None))
      (test_config 2) True (saved_progress [''A''] [''B''] 1)) =
     Some [ExtractTranscript ''D'', SaveTranscript ''D'' ''amar rava'', RateLimit 2,
           SaveProgress (saved_progress [''A'', ''D''] [''B''] 2)] \<and>
   map_option (map result_video_id) (run_results (run_with_progress
      (world [''A'', ''B'', ''C'', ''D''] (\<lambda>v. if v = ''B'' then disabled else spoken) (\<lambda>p. None))
      (test_config 2) True (saved_progress [''A''] [''B''] 1))) = Some [''D''] \<and>
   final_progress (run_with_progress
      (world [''A'', ''B'', ''C'', ''D''] (\<lambda>v. if v = ''B'' then disabled else spoken) (\<lambda>p. None))
      (test_config 2) True (saved_progress [''A''] [''B''] 1)) =
     Some (saved_progress [''A'', ''D''] [''B''] 2)"
  by code_simp

end
